theory Spec2Isabelle
  imports Main
begin

section \<open>Time\<close>

text \<open>
  The program works with naive \<^verbatim>\<open>datetime\<close> values (no time zone attached: they come from
  \<^verbatim>\<open>datetime.strptime\<close>, \<^verbatim>\<open>datetime.now()\<close> and \<^verbatim>\<open>replace\<close>). A naive datetime is a
  point of a line with microsecond resolution, so an instant is the integer number of
  microseconds since midnight of a fixed day, taken to be 1 January 2025. The calendar date
  is the quotient by the length of a day. Of the year range of \<^verbatim>\<open>datetime\<close> (1 to 9999) the
  lower end is modelled where the program can reach it (the slot generation walking
  backwards); the upper end is not: the line is unbounded above.
\<close>

type_synonym instant = int

definition SECOND :: int where
  "SECOND = 1000000"

definition MINUTE :: int where
  "MINUTE = 60 * SECOND"

definition HOUR :: int where
  "HOUR = 60 * MINUTE"

definition DAY :: int where
  "DAY = 24 * HOUR"

text \<open>
  \<^verbatim>\<open>datetime.min\<close>, midnight of 1 January of year 1: day 0 of the model has the ordinal
  739252 in the proleptic Gregorian calendar, and 1 January of year 1 has the ordinal 1.
\<close>

definition DATETIME_MIN :: int where
  "DATETIME_MIN = - 739251 * DAY"

text \<open>\<^verbatim>\<open>timedelta(minutes=m)\<close> and \<^verbatim>\<open>timedelta(days=k)\<close>.\<close>

definition timedelta_minutes :: "int \<Rightarrow> int" where
  "timedelta_minutes m = m * MINUTE"

definition timedelta_days :: "int \<Rightarrow> int" where
  "timedelta_days k = k * DAY"

text \<open>\<^verbatim>\<open>t.date()\<close>: the number of the day that holds \<open>t\<close>.\<close>

definition date_of :: "instant \<Rightarrow> int" where
  "date_of t = t div DAY"

text \<open>Exceptions of the program, and the three ways a call can end.\<close>

datatype exn =
  HttpError | ValueError | IndexError | TypeError | AttributeError | OverflowError | OtherError

datatype 'a outcome = Return 'a | Raise exn | NoReturn

text \<open>
  \<^verbatim>\<open>t.replace(hour=h, minute=m, second=0, microsecond=0)\<close> keeps the date of \<open>t\<close> and
  raises \<^verbatim>\<open>ValueError\<close> when the hour is outside 0..23 or the minute outside 0..59.
\<close>

definition replace_hm :: "instant \<Rightarrow> int \<Rightarrow> int \<Rightarrow> exn + instant" where
  "replace_hm t h m =
     (if 0 \<le> h \<and> h \<le> 23 \<and> 0 \<le> m \<and> m \<le> 59
      then Inr (date_of t * DAY + h * HOUR + m * MINUTE)
      else Inl ValueError)"

section \<open>CalendarService (services/calendar.py)\<close>

text \<open>
  An event of the remote calendar, as the conflict filter reads it: the two datetimes that
  \<^verbatim>\<open>datetime.fromisoformat\<close> yields for its \<^verbatim>\<open>start\<close> and \<^verbatim>\<open>end\<close>, after a final \<^verbatim>\<open>Z\<close> was
  rewritten to \<^verbatim>\<open>+00:00\<close>. A timestamp without an offset (and a bare date, which an all-day
  event has) yields a naive datetime, on the time line of the slots. A timestamp with an
  offset or a \<^verbatim>\<open>Z\<close> yields an offset-aware datetime, here with its instant in UTC.
  Python refuses to order a naive and an aware datetime: the comparison raises
  \<^verbatim>\<open>TypeError\<close>. A payload that does not parse is outside the model.
\<close>

datatype pytime = Naive instant | Aware instant

record event =
  ev_start :: pytime
  ev_end :: pytime

text \<open>The body of the event that \<^verbatim>\<open>create_appointment\<close> sends to the remote calendar.\<close>

record appointment =
  ap_customer_name :: string
  ap_customer_contact :: string
  ap_start :: instant
  ap_end :: instant
  ap_service_type :: string

text \<open>
  The service object and the remote calendar behind it. \<open>service\<close> tells whether
  \<^verbatim>\<open>self.service\<close> was initialised. \<open>events_list tmin tmax\<close> is what
  \<^verbatim>\<open>events().list(timeMin, timeMax, ...).execute()\<close> does: it raises, or it returns the
  items. \<open>events_insert body\<close> is what \<^verbatim>\<open>events().insert(body).execute()\<close> does: it raises,
  or it returns an event whose \<^verbatim>\<open>id\<close> may be missing.
\<close>

record calendar_service =
  service :: bool
  events_list :: "instant \<Rightarrow> instant \<Rightarrow> exn + event list"
  events_insert :: "appointment \<Rightarrow> exn + string option"

text \<open>
  \<^verbatim>\<open>create_appointment\<close>. The result comes with the list of insert calls issued. Only
  \<^verbatim>\<open>HttpError\<close> is caught; any other exception of the call propagates.
\<close>

definition create_appointment ::
  "calendar_service \<Rightarrow> string \<Rightarrow> string \<Rightarrow> instant \<Rightarrow> int \<Rightarrow> string
     \<Rightarrow> string option outcome \<times> appointment list" where
  "create_appointment cal customer_name customer_contact start_time duration_minutes service_type =
     (if \<not> service cal then (Return None, [])
      else
        let end_time = start_time + timedelta_minutes duration_minutes;
            body = \<lparr>ap_customer_name = customer_name, ap_customer_contact = customer_contact,
                    ap_start = start_time, ap_end = end_time, ap_service_type = service_type\<rparr>
        in (case events_insert cal body of
              Inr event_id \<Rightarrow> (Return event_id, [body])
            | Inl e \<Rightarrow> (if e = HttpError then (Return None, [body]) else (Raise e, [body]))))"

text \<open>
  The business hours arrive as two strings, split at \<^verbatim>\<open>;\<close> and each piece parsed by
  \<^verbatim>\<open>map(int, piece.strip().split(':'))\<close>. The model starts after that parse: each of the
  two configuration values is the list of (hour, minute) pairs of its pieces.
\<close>

type_synonym hhmm = "int \<times> int"

text \<open>The loop that builds \<^verbatim>\<open>time_blocks\<close> from \<^verbatim>\<open>zip(start_times, end_times)\<close>.\<close>

fun make_time_blocks :: "instant \<Rightarrow> (hhmm \<times> hhmm) list \<Rightarrow> exn + (instant \<times> instant) list" where
  "make_time_blocks date [] = Inr []"
| "make_time_blocks date (((start_hour, start_minute), (end_hour, end_minute)) # rest) =
     (case replace_hm date start_hour start_minute of
        Inl e \<Rightarrow> Inl e
      | Inr block_start \<Rightarrow>
          (case replace_hm date end_hour end_minute of
             Inl e \<Rightarrow> Inl e
           | Inr block_end \<Rightarrow>
               (case make_time_blocks date rest of
                  Inl e \<Rightarrow> Inl e
                | Inr blocks \<Rightarrow> Inr ((block_start, block_end) # blocks))))"

text \<open>
  The inner \<^verbatim>\<open>while\<close> loop of slot generation. The sum in its condition is computed
  before it is compared. With a duration of zero the loop runs forever when it is entered,
  so the function is partial: \<open>None\<close> is "does not return". With a negative duration the
  slots walk backwards until the sum falls below \<^verbatim>\<open>datetime.min\<close>, where Python raises
  \<^verbatim>\<open>OverflowError\<close>; \<open>current_slot\<close> being a datetime, the sum can fall below
  \<^verbatim>\<open>datetime.min\<close> only when the duration is negative.
\<close>

partial_function (option) slot_loop ::
  "int \<Rightarrow> instant \<Rightarrow> instant \<Rightarrow> instant list \<Rightarrow> (exn + instant list) option" where
  "slot_loop slot_duration_minutes block_end current_slot all_slots =
     (if slot_duration_minutes < 0
           \<and> current_slot + timedelta_minutes slot_duration_minutes < DATETIME_MIN
      then Some (Inl OverflowError)
      else if current_slot + timedelta_minutes slot_duration_minutes \<le> block_end
      then slot_loop slot_duration_minutes block_end
             (current_slot + timedelta_minutes slot_duration_minutes) (all_slots @ [current_slot])
      else Some (Inr all_slots))"

text \<open>The outer \<^verbatim>\<open>for block_start, block_end in time_blocks\<close> loop.\<close>

fun all_slots_loop ::
  "int \<Rightarrow> (instant \<times> instant) list \<Rightarrow> instant list \<Rightarrow> (exn + instant list) option" where
  "all_slots_loop slot_duration_minutes [] all_slots = Some (Inr all_slots)"
| "all_slots_loop slot_duration_minutes ((block_start, block_end) # rest) all_slots =
     (case slot_loop slot_duration_minutes block_end block_start all_slots of
        None \<Rightarrow> None
      | Some (Inl e) \<Rightarrow> Some (Inl e)
      | Some (Inr all_slots') \<Rightarrow> all_slots_loop slot_duration_minutes rest all_slots')"

text \<open>
  The inner \<^verbatim>\<open>for event in events\<close> loop of the conflict filter: the value of
  \<^verbatim>\<open>is_available\<close> when the loop ends or breaks. In
  \<^verbatim>\<open>slot < event_end and slot_end > event_start\<close> the second comparison is made only when
  the first one holds; each of them raises \<^verbatim>\<open>TypeError\<close> on an offset-aware event time, the
  slots being naive.
\<close>

fun is_available_loop :: "instant \<Rightarrow> instant \<Rightarrow> event list \<Rightarrow> exn + bool" where
  "is_available_loop slot slot_end [] = Inr True"
| "is_available_loop slot slot_end (ev # events) =
     (case ev_end ev of
        Aware event_end \<Rightarrow> Inl TypeError
      | Naive event_end \<Rightarrow>
          (if slot < event_end
           then (case ev_start ev of
                   Aware event_start \<Rightarrow> Inl TypeError
                 | Naive event_start \<Rightarrow>
                     (if slot_end > event_start then Inr False
                      else is_available_loop slot slot_end events))
           else is_available_loop slot slot_end events))"

text \<open>The outer \<^verbatim>\<open>for slot in all_slots\<close> loop of the conflict filter.\<close>

fun available_slots_loop ::
  "int \<Rightarrow> event list \<Rightarrow> instant list \<Rightarrow> instant list \<Rightarrow> exn + instant list" where
  "available_slots_loop slot_duration_minutes events [] available_slots = Inr available_slots"
| "available_slots_loop slot_duration_minutes events (slot # all_slots) available_slots =
     (let slot_end = slot + timedelta_minutes slot_duration_minutes
      in case is_available_loop slot slot_end events of
           Inl e \<Rightarrow> Inl e
         | Inr is_available \<Rightarrow>
             (if is_available
              then available_slots_loop slot_duration_minutes events all_slots
                     (available_slots @ [slot])
              else available_slots_loop slot_duration_minutes events all_slots available_slots))"

text \<open>
  Reading event times in statements about the filter: whether an event carries no offset,
  and the instant its time holds.
\<close>

fun instant_of :: "pytime \<Rightarrow> instant" where
  "instant_of (Naive t) = t"
| "instant_of (Aware t) = t"

fun is_naive :: "pytime \<Rightarrow> bool" where
  "is_naive (Naive t) = True"
| "is_naive (Aware t) = False"

definition naive_event :: "event \<Rightarrow> bool" where
  "naive_event ev = (is_naive (ev_start ev) \<and> is_naive (ev_end ev))"

text \<open>
  \<^verbatim>\<open>CalendarService.get_available_slots\<close>. \<^verbatim>\<open>time_blocks[0]\<close> raises \<^verbatim>\<open>IndexError\<close> on an
  empty list (\<^verbatim>\<open>split\<close> never yields one). The read, the generation and the filter are inside the
  \<^verbatim>\<open>try\<close>, whose handler catches \<^verbatim>\<open>HttpError\<close> only: an \<^verbatim>\<open>OverflowError\<close> of the
  generation and a \<^verbatim>\<open>TypeError\<close> of the filter leave the function.
\<close>

definition calendar_get_available_slots ::
  "calendar_service \<Rightarrow> instant \<Rightarrow> hhmm list \<Rightarrow> hhmm list \<Rightarrow> int \<Rightarrow> instant list outcome" where
  "calendar_get_available_slots cal date business_hours_start business_hours_end slot_duration_minutes =
     (if \<not> service cal then Return []
      else if length business_hours_start \<noteq> length business_hours_end then Return []
      else
        (case make_time_blocks date (zip business_hours_start business_hours_end) of
           Inl e \<Rightarrow> Raise e
         | Inr time_blocks \<Rightarrow>
             (if time_blocks = [] then Raise IndexError
              else
                let day_start = fst (hd time_blocks);
                    day_end = snd (last time_blocks)
                in (case events_list cal day_start day_end of
                      Inl e \<Rightarrow> (if e = HttpError then Return [] else Raise e)
                    | Inr events \<Rightarrow>
                        (case all_slots_loop slot_duration_minutes time_blocks [] of
                           None \<Rightarrow> NoReturn
                         | Some (Inl e) \<Rightarrow> Raise e
                         | Some (Inr all_slots) \<Rightarrow>
                             (case available_slots_loop slot_duration_minutes events all_slots [] of
                                Inl e \<Rightarrow> Raise e
                              | Inr available_slots \<Rightarrow> Return available_slots))))))"

section \<open>BookingManager (logic/booking.py)\<close>

text \<open>
  The configuration read in \<^verbatim>\<open>__init__\<close>, the two business-hours strings in the parsed
  form described above. The calendar service the manager holds is passed to each
  operation, since what the remote calendar answers changes from call to call.
\<close>

record booking_manager =
  business_hours_start :: "hhmm list"
  business_hours_end :: "hhmm list"
  appointment_duration :: int

text \<open>
  The inner \<^verbatim>\<open>for slot in day_slots\<close> loop of \<^verbatim>\<open>BookingManager.get_available_slots\<close>. The
  entry appended for a slot is a dictionary of the slot and two renderings of it; the
  model keeps the slot. \<^verbatim>\<open>datetime.now()\<close> is read once per call in the model.
\<close>

fun future_slots_loop :: "instant \<Rightarrow> instant list \<Rightarrow> instant list \<Rightarrow> instant list" where
  "future_slots_loop now [] available_slots = available_slots"
| "future_slots_loop now (slot # day_slots) available_slots =
     (if slot > now then future_slots_loop now day_slots (available_slots @ [slot])
      else future_slots_loop now day_slots available_slots)"

text \<open>The \<^verbatim>\<open>for day_offset in range(num_days)\<close> loop, over the offsets still to visit.\<close>

fun days_loop ::
  "calendar_service \<Rightarrow> booking_manager \<Rightarrow> instant \<Rightarrow> instant \<Rightarrow> int list \<Rightarrow> instant list
     \<Rightarrow> instant list outcome" where
  "days_loop cal bm now requested_date [] available_slots = Return available_slots"
| "days_loop cal bm now requested_date (day_offset # offsets) available_slots =
     (let check_date = requested_date + timedelta_days day_offset
      in if date_of check_date < date_of now
         then days_loop cal bm now requested_date offsets available_slots
         else
           (case calendar_get_available_slots cal check_date (business_hours_start bm)
                   (business_hours_end bm) (appointment_duration bm) of
              Return day_slots \<Rightarrow>
                days_loop cal bm now requested_date offsets
                  (future_slots_loop now day_slots available_slots)
            | Raise e \<Rightarrow> Raise e
            | NoReturn \<Rightarrow> NoReturn))"

text \<open>\<^verbatim>\<open>BookingManager.get_available_slots\<close>; \<^verbatim>\<open>range(n)\<close> is empty for \<open>n \<le> 0\<close>.\<close>

definition booking_get_available_slots ::
  "calendar_service \<Rightarrow> booking_manager \<Rightarrow> instant \<Rightarrow> instant \<Rightarrow> int \<Rightarrow> instant list outcome" where
  "booking_get_available_slots cal bm now requested_date num_days =
     (case days_loop cal bm now requested_date (map int [0..<nat num_days]) [] of
        Return available_slots \<Rightarrow> Return (take 5 available_slots)
      | Raise e \<Rightarrow> Raise e
      | NoReturn \<Rightarrow> NoReturn)"

text \<open>Values stored in the dictionaries of the program, and Python's truth test on them.\<close>

datatype pyval = PBool bool | PStr string | PDatetime instant

type_synonym pydict = "string \<rightharpoonup> pyval"

fun truthy :: "pyval option \<Rightarrow> bool" where
  "truthy None = False"
| "truthy (Some (PBool b)) = b"
| "truthy (Some (PStr s)) = (s \<noteq> [])"
| "truthy (Some (PDatetime t)) = True"

text \<open>The three dictionaries \<^verbatim>\<open>create_booking\<close> returns.\<close>

definition time_not_available_result :: pydict where
  "time_not_available_result =
     [''success'' \<mapsto> PBool False,
      ''error'' \<mapsto> PStr ''time_not_available'',
      ''message'' \<mapsto> PStr ''Sorry, that time slot is no longer available.'']"

definition calendar_error_result :: pydict where
  "calendar_error_result =
     [''success'' \<mapsto> PBool False,
      ''error'' \<mapsto> PStr ''calendar_error'',
      ''message'' \<mapsto> PStr ''Sorry, there was an error creating your appointment.'']"

definition success_result :: "string \<Rightarrow> instant \<Rightarrow> string \<Rightarrow> string \<Rightarrow> pydict" where
  "success_result event_id appointment_time customer_name service_type =
     [''success'' \<mapsto> PBool True,
      ''event_id'' \<mapsto> PStr event_id,
      ''appointment_time'' \<mapsto> PDatetime appointment_time,
      ''customer_name'' \<mapsto> PStr customer_name,
      ''service_type'' \<mapsto> PStr service_type]"

text \<open>
  \<^verbatim>\<open>create_booking\<close>, with the insert calls it issued. The test
  \<^verbatim>\<open>abs((slot - appointment_time).total_seconds()) < 60\<close> compares a number of microseconds,
  divided by \<open>10\<^sup>6\<close>, with 60: it holds exactly when the distance is below sixty million
  microseconds. \<^verbatim>\<open>if event_id\<close> fails on \<^verbatim>\<open>None\<close> and on the empty string.
\<close>

definition create_booking ::
  "calendar_service \<Rightarrow> booking_manager \<Rightarrow> string \<Rightarrow> string \<Rightarrow> instant \<Rightarrow> string
     \<Rightarrow> pydict outcome \<times> appointment list" where
  "create_booking cal bm user_id customer_name appointment_time service_type =
     (case replace_hm appointment_time 0 0 of
        Inl e \<Rightarrow> (Raise e, [])
      | Inr check_date \<Rightarrow>
          (case calendar_get_available_slots cal check_date (business_hours_start bm)
                  (business_hours_end bm) (appointment_duration bm) of
             Raise e \<Rightarrow> (Raise e, [])
           | NoReturn \<Rightarrow> (NoReturn, [])
           | Return available_slots \<Rightarrow>
               (let is_available =
                      list_ex (\<lambda>slot. \<bar>slot - appointment_time\<bar> < 60 * SECOND) available_slots
                in if \<not> is_available then (Return time_not_available_result, [])
                   else
                     (case create_appointment cal customer_name user_id appointment_time
                             (appointment_duration bm) service_type of
                        (Return event_id, calls) \<Rightarrow>
                          (case event_id of
                             None \<Rightarrow> (Return calendar_error_result, calls)
                           | Some i \<Rightarrow>
                               (if i \<noteq> []
                                then (Return (success_result i appointment_time customer_name
                                                service_type), calls)
                                else (Return calendar_error_result, calls)))
                      | (Raise e, calls) \<Rightarrow> (Raise e, calls)
                      | (NoReturn, calls) \<Rightarrow> (NoReturn, calls)))))"

section \<open>ResponseGenerator (logic/responses.py)\<close>

text \<open>
  A reply is the kind of response with the data it is rendered from; the wording, chosen
  at random among variants, is outside the model. \<open>Answer\<close> is the text of the
  question-answering collaborator.
\<close>

datatype reply =
    GreetingResponse
  | AskDatetimeResponse
  | AvailabilityResponse "instant list"
  | ConfirmationResponse instant "pyval option"
  | BookingErrorResponse
  | ClarifyTimeResponse
  | CancellationResponse
  | FallbackResponse
  | Answer string

section \<open>IntentRouter (logic/intent_router.py)\<close>

datatype stage =
    Initial | Greeted | AskingDatetime | ShowingAvailability | AwaitingConfirmation
  | Completed | Cancelled

datatype turn = UserTurn string | AssistantTurn reply

text \<open>
  The state dictionary of one user. Its keys \<^verbatim>\<open>stage\<close>, \<^verbatim>\<open>history\<close> and \<^verbatim>\<open>booking_data\<close>
  are set when it is created; \<^verbatim>\<open>customer_name\<close> is only read, with a default.
\<close>

record conv_state =
  stage :: stage
  history :: "turn list"
  booking_data :: pydict
  state_customer_name :: "string option"

definition initial_state :: conv_state where
  "initial_state =
     \<lparr>stage = Initial, history = [], booking_data = Map.empty, state_customer_name = None\<rparr>"

text \<open>
  What the collaborators of one \<^verbatim>\<open>route_message\<close> call do. \<open>classify text stage\<close> is the
  classifier's completion, stripped and lower-cased (\<open>None\<close>: the call raised).
  \<open>extract_date_time text\<close> is \<^verbatim>\<open>_extract_date_time\<close>, which catches every exception itself.
  \<open>chat context\<close> is the completion for a general question on the turns handed over
  (\<open>None\<close>: the call raised).
\<close>

record collaborators =
  classify :: "string \<Rightarrow> stage \<Rightarrow> string option"
  extract_date_time :: "string \<Rightarrow> instant option"
  chat :: "turn list \<Rightarrow> string option"
  clock :: instant
  calendar :: calendar_service

text \<open>Python's slice \<^verbatim>\<open>xs[-n:]\<close> for \<open>n > 0\<close>: the last \<open>n\<close> elements, or all of them.\<close>

definition last_n :: "nat \<Rightarrow> 'a list \<Rightarrow> 'a list" where
  "last_n n xs = drop (length xs - n) xs"

text \<open>
  Texts are strings of bytes, the UTF-8 encoding of Python's strings. \<^verbatim>\<open>str.lower\<close> maps
  the letters A to Z to a to z and, outside ASCII, two code points to text with an ASCII
  letter: the Kelvin sign U+212A (bytes E2 84 AA) to \<^verbatim>\<open>k\<close>, and the dotted capital I U+0130
  (bytes C4 B0) to \<^verbatim>\<open>i\<close> followed by U+0307 (bytes CC 87). Every other code point beyond
  ASCII is mapped to code points beyond ASCII and is left as it is in the model, which
  changes no occurrence of an ASCII word in the result. Then the substring test
  \<^verbatim>\<open>word in text\<close>, which on UTF-8 bytes and an ASCII word is the test on code points.
\<close>

definition lower_char :: "char \<Rightarrow> char" where
  "lower_char c =
     (if 65 \<le> (of_char c :: nat) \<and> (of_char c :: nat) \<le> 90
      then char_of (of_char c + 32 :: nat) else c)"

fun lower :: "string \<Rightarrow> string" where
  "lower [] = []"
| "lower (c # rest) =
     (if c = CHR 0xE2 \<and> take 2 rest = [CHR 0x84, CHR 0xAA]
      then CHR ''k'' # lower (drop 2 rest)
      else if c = CHR 0xC4 \<and> take 1 rest = [CHR 0xB0]
      then CHR ''i'' # CHR 0xCC # CHR 0x87 # lower (drop 1 rest)
      else lower_char c # lower rest)"

fun starts_with :: "string \<Rightarrow> string \<Rightarrow> bool" where
  "starts_with text [] = True"
| "starts_with [] (c # word) = False"
| "starts_with (x # text) (c # word) = (x = c \<and> starts_with text word)"

fun str_contains :: "string \<Rightarrow> string \<Rightarrow> bool" where
  "str_contains [] word = (word = [])"
| "str_contains (x # text) word = (starts_with (x # text) word \<or> str_contains text word)"

definition detect_intent :: "collaborators \<Rightarrow> string \<Rightarrow> conv_state \<Rightarrow> string" where
  "detect_intent env message_text state =
     (case classify env message_text (stage state) of
        Some intent \<Rightarrow> intent
      | None \<Rightarrow> ''other'')"

definition extract_confirmed_time :: "string \<Rightarrow> conv_state \<Rightarrow> pyval option" where
  "extract_confirmed_time message_text state =
     (let message_lower = lower message_text
      in if list_ex (\<lambda>word. str_contains message_lower word)
              [''yes'', ''confirm'', ''book'', ''that works'', ''sounds good'']
         then booking_data state ''proposed_time''
         else None)"

definition answer_general_question :: "collaborators \<Rightarrow> string \<Rightarrow> turn list \<Rightarrow> reply" where
  "answer_general_question env message_text history_arg =
     (case chat env (last_n 4 history_arg) of
        Some text \<Rightarrow> Answer text
      | None \<Rightarrow> FallbackResponse)"

text \<open>
  \<^verbatim>\<open>_handle_intent\<close>. The state is mutated in place, so the state is returned also when the
  call raises. The third component lists the \<^verbatim>\<open>create_booking\<close> calls made, each with its
  result and its insert calls. A confirmed slot that is not a datetime makes
  \<^verbatim>\<open>create_booking\<close> raise on its first line, at \<^verbatim>\<open>appointment_time.replace\<close>, before any
  call to the calendar.
\<close>

type_synonym booking_call = "pydict outcome \<times> appointment list"

definition handle_intent ::
  "booking_manager \<Rightarrow> collaborators \<Rightarrow> string \<Rightarrow> string \<Rightarrow> string \<Rightarrow> conv_state
     \<Rightarrow> conv_state \<times> reply outcome \<times> booking_call list" where
  "handle_intent bm env user_id intent message_text state =
     (if intent = ''greeting'' then (state\<lparr>stage := Greeted\<rparr>, Return GreetingResponse, [])
      else if intent = ''booking_inquiry'' then
        (case extract_date_time env message_text of
           Some date_info \<Rightarrow>
             (case booking_get_available_slots (calendar env) bm (clock env) date_info 3 of
                Return available_slots \<Rightarrow>
                  (state\<lparr>stage := ShowingAvailability\<rparr>,
                   Return (AvailabilityResponse available_slots), [])
              | Raise e \<Rightarrow> (state, Raise e, [])
              | NoReturn \<Rightarrow> (state, NoReturn, []))
         | None \<Rightarrow> (state\<lparr>stage := AskingDatetime\<rparr>, Return AskDatetimeResponse, []))
      else if intent = ''confirm_booking''
              \<and> (stage state = ShowingAvailability \<or> stage state = AwaitingConfirmation) then
        (let confirmed_slot = extract_confirmed_time message_text state
         in if truthy confirmed_slot then
              (case confirmed_slot of
                 Some (PDatetime appointment_time) \<Rightarrow>
                   (let call = create_booking (calendar env) bm user_id
                                 (case state_customer_name state of
                                    Some name \<Rightarrow> name
                                  | None \<Rightarrow> ''Customer'')
                                 appointment_time ''Haircut''
                    in case fst call of
                         Return booking_result \<Rightarrow>
                           (if truthy (booking_result ''success'')
                            then (state\<lparr>stage := Completed, booking_data := booking_result\<rparr>,
                                  Return (ConfirmationResponse appointment_time
                                            (booking_result ''event_id'')),
                                  [call])
                            else (state, Return BookingErrorResponse, [call]))
                       | Raise e \<Rightarrow> (state, Raise e, [call])
                       | NoReturn \<Rightarrow> (state, NoReturn, [call]))
               | Some (PStr s) \<Rightarrow> (state, Raise TypeError, [(Raise TypeError, [])])
               | Some (PBool b) \<Rightarrow> (state, Raise AttributeError, [(Raise AttributeError, [])])
               | None \<Rightarrow> (state, Raise AttributeError, [(Raise AttributeError, [])]))
            else (state\<lparr>stage := AwaitingConfirmation\<rparr>, Return ClarifyTimeResponse, []))
      else if intent = ''cancel_booking'' then
        (state\<lparr>stage := Cancelled\<rparr>, Return CancellationResponse, [])
      else if intent = ''general_question'' then
        (state, Return (answer_general_question env message_text (history state)), [])
      else (state, Return FallbackResponse, []))"

text \<open>
  \<^verbatim>\<open>route_message\<close> on the dictionary of conversation states. The inbound turn is appended
  before anything can raise; the reply is appended and the history cut to its last 10
  turns only when \<^verbatim>\<open>_handle_intent\<close> returns.
\<close>

type_synonym conversations = "string \<rightharpoonup> conv_state"

definition route_message ::
  "booking_manager \<Rightarrow> collaborators \<Rightarrow> conversations \<Rightarrow> string \<Rightarrow> string
     \<Rightarrow> conversations \<times> reply outcome \<times> booking_call list" where
  "route_message bm env conversation_state user_id message_text =
     (let state0 = (case conversation_state user_id of
                      None \<Rightarrow> initial_state
                    | Some st \<Rightarrow> st);
          state1 = state0\<lparr>history := history state0 @ [UserTurn message_text]\<rparr>;
          intent = detect_intent env message_text state1
      in case handle_intent bm env user_id intent message_text state1 of
           (state2, Return response, calls) \<Rightarrow>
             (let state3 = state2\<lparr>history := history state2 @ [AssistantTurn response]\<rparr>;
                  state4 = (if length (history state3) > 10
                            then state3\<lparr>history := last_n 10 (history state3)\<rparr>
                            else state3)
              in (conversation_state(user_id \<mapsto> state4), Return response, calls))
         | (state2, Raise e, calls) \<Rightarrow> (conversation_state(user_id \<mapsto> state2), Raise e, calls)
         | (state2, NoReturn, calls) \<Rightarrow> (conversation_state(user_id \<mapsto> state2), NoReturn, calls))"

text \<open>
  A sequence of \<^verbatim>\<open>route_message\<close> calls, each with the behaviour of the collaborators at
  that call, applied in order. The result holds the final dictionary, the outcome of
  every call and the \<^verbatim>\<open>create_booking\<close> calls made; it is \<open>None\<close> when a call does not
  return, since no later call is then served.
\<close>

type_synonym request = "collaborators \<times> string \<times> string"

fun run ::
  "booking_manager \<Rightarrow> conversations \<Rightarrow> request list
     \<Rightarrow> (conversations \<times> reply outcome list \<times> booking_call list) option" where
  "run bm conversation_state [] = Some (conversation_state, [], [])"
| "run bm conversation_state ((env, user_id, message_text) # requests) =
     (case route_message bm env conversation_state user_id message_text of
        (conversation_state', NoReturn, calls) \<Rightarrow> None
      | (conversation_state', out, calls) \<Rightarrow>
          (case run bm conversation_state' requests of
             None \<Rightarrow> None
           | Some (final, outs, calls') \<Rightarrow> Some (final, out # outs, calls @ calls')))"

text \<open>
  The turns a sequence of calls appends to the history of one user, in arrival order: the
  inbound text of each of the user's calls, followed by the reply when the call returned.
\<close>

fun transcript :: "string \<Rightarrow> request list \<Rightarrow> reply outcome list \<Rightarrow> turn list" where
  "transcript uid ((env, user_id, message_text) # requests) (out # outs) =
     (if user_id = uid
      then UserTurn message_text
             # (case out of Return response \<Rightarrow> [AssistantTurn response] | _ \<Rightarrow> [])
             @ transcript uid requests outs
      else transcript uid requests outs)"
| "transcript uid requests outs = []"

text \<open>The history retained for a user; empty when the user has no state yet.\<close>

definition retained_history :: "conversations \<Rightarrow> string \<Rightarrow> turn list" where
  "retained_history conversation_state uid =
     (case conversation_state uid of None \<Rightarrow> [] | Some st \<Rightarrow> history st)"

section \<open>Example inputs\<close>

text \<open>
  Concrete calendars and a concrete configuration, used where a statement is evaluated at
  an explicit input. The first calendar holds one event from 14:00 to 15:00 of day 0 and
  accepts every insert; the others differ in how the remote calls end.
\<close>

definition example_calendar :: calendar_service where
  "example_calendar =
     \<lparr>service = True,
      events_list = (\<lambda>tmin tmax. Inr [\<lparr>ev_start = Naive (14 * HOUR), ev_end = Naive (15 * HOUR)\<rparr>]),
      events_insert = (\<lambda>body. Inr (Some ''evt1''))\<rparr>"

definition insert_failing_calendar :: calendar_service where
  "insert_failing_calendar = example_calendar\<lparr>events_insert := (\<lambda>body. Inl HttpError)\<rparr>"

definition http_error_calendar :: calendar_service where
  "http_error_calendar = example_calendar\<lparr>events_list := (\<lambda>tmin tmax. Inl HttpError)\<rparr>"

definition unreachable_calendar :: calendar_service where
  "unreachable_calendar = example_calendar\<lparr>events_list := (\<lambda>tmin tmax. Inl OtherError)\<rparr>"

text \<open>
  A calendar that reports its event as the Calendar API reports a timed event, with an
  offset: 14:00 to 15:00 of day 0 in UTC.
\<close>

definition offset_calendar :: calendar_service where
  "offset_calendar =
     example_calendar\<lparr>events_list :=
       (\<lambda>tmin tmax. Inr [\<lparr>ev_start = Aware (14 * HOUR), ev_end = Aware (15 * HOUR)\<rparr>])\<rparr>"

definition insert_unreachable_calendar :: calendar_service where
  "insert_unreachable_calendar = example_calendar\<lparr>events_insert := (\<lambda>body. Inl OtherError)\<rparr>"




definition uninitialised_calendar :: calendar_service where
  "uninitialised_calendar = example_calendar\<lparr>service := False\<rparr>"

definition example_manager :: booking_manager where
  "example_manager =
     \<lparr>business_hours_start = [(9, 0)], business_hours_end = [(18, 0)],
      appointment_duration = 60\<rparr>"

text \<open>
  Collaborators for one call: a classifier that knows four texts and fails on any other, a
  date extractor that knows one, a question-answering completion, a clock at 10:30 of day 0
  and the first calendar. The second record differs in the calendar: its reads raise.
\<close>

definition example_env :: collaborators where
  "example_env =
     \<lparr>classify = (\<lambda>text st.
         if text = ''hi'' then Some ''greeting''
         else if text = ''tomorrow at 3pm'' then Some ''booking_inquiry''
         else if text = ''yes'' then Some ''confirm_booking''
         else if text = ''fade price'' then Some ''general_question''
         else None),
      extract_date_time = (\<lambda>text. if text = ''tomorrow at 3pm'' then Some (DAY + 15 * HOUR) else None),
      chat = (\<lambda>context. Some ''A fade is 35 dollars.''),
      clock = 10 * HOUR + 30 * MINUTE,
      calendar = example_calendar\<rparr>"

definition outage_env :: collaborators where
  "outage_env = example_env\<lparr>calendar := unreachable_calendar\<rparr>"

text \<open>The state of a user after the inquiry \<^verbatim>\<open>tomorrow at 3pm\<close> as a first message.\<close>

definition shown_state :: conv_state where
  "shown_state =
     \<lparr>stage = ShowingAvailability,
      history = [UserTurn ''tomorrow at 3pm'',
                 AssistantTurn (AvailabilityResponse
                   [DAY + 9 * HOUR, DAY + 10 * HOUR, DAY + 11 * HOUR, DAY + 12 * HOUR,
                    DAY + 13 * HOUR])],
      booking_data = Map.empty, state_customer_name = None\<rparr>"

text \<open>The state of a user after five or more greetings and nothing else.\<close>

definition greeted_state :: conv_state where
  "greeted_state =
     \<lparr>stage = Greeted,
      history = concat (replicate 5 [UserTurn ''hi'', AssistantTurn GreetingResponse]),
      booking_data = Map.empty, state_customer_name = None\<rparr>"

section \<open>Slot generation and the conflict filter\<close>

lemma timedelta_minutes_pos: "0 < m \<Longrightarrow> 0 < timedelta_minutes m"
  by (simp add: timedelta_minutes_def MINUTE_def SECOND_def)

lemma div_le_zero_lt: "(0::int) < d \<Longrightarrow> a div d \<le> 0 \<Longrightarrow> a < d"
  using pos_imp_zdiv_pos_iff[of d a] by linarith

lemma div_ge_one_le: "(0::int) < d \<Longrightarrow> 1 \<le> a div d \<Longrightarrow> d \<le> a"
  using pos_imp_zdiv_pos_iff[of d a] by linarith

lemma div_sub_self: "(0::int) < d \<Longrightarrow> (a - d) div d = a div d - 1"
  using div_mult_self2[of d a "-1"] by simp

lemma slot_loop_steps:
  assumes m: "0 < m" and d: "d = timedelta_minutes m"
  shows "nat ((be - cur) div d) = n \<Longrightarrow>
     slot_loop m be cur acc = Some (Inr (acc @ map (\<lambda>k. cur + int k * d) [0..<n]))"
proof (induction n arbitrary: cur acc)
  have dpos: "0 < d" using m d by (simp add: timedelta_minutes_pos)
  case 0
  then have "(be - cur) div d \<le> 0" by simp
  then have "be - cur < d" using dpos by (rule div_le_zero_lt[rotated])
  then show ?case using 0 m d by (subst slot_loop.simps) simp
next
  have dpos: "0 < d" using m d by (simp add: timedelta_minutes_pos)
  case (Suc n)
  then have "1 \<le> (be - cur) div d" by linarith
  then have le: "cur + d \<le> be" using div_ge_one_le[OF dpos] by fastforce
  have "(be - (cur + d)) div d = (be - cur) div d - 1"
    using div_sub_self[OF dpos, of "be - cur"] by (simp add: algebra_simps)
  then have "nat ((be - (cur + d)) div d) = n" using Suc.prems by simp
  from Suc.IH[OF this, of "acc @ [cur]"] le m d
  show ?case
    by (subst slot_loop.simps) (simp add: map_upt_Suc algebra_simps del: upt_Suc)
qed

lemma slot_loop_positive:
  "0 < m \<Longrightarrow> slot_loop m be bs acc =
     Some (Inr (acc @ map (\<lambda>k. bs + int k * timedelta_minutes m)
                        [0..<nat ((be - bs) div timedelta_minutes m)]))"
  by (rule slot_loop_steps[OF _ refl refl])

lemma all_slots_loop_positive:
  "0 < m \<Longrightarrow> all_slots_loop m blocks acc =
     Some (Inr (acc @ concat (map (\<lambda>(bs, be). map (\<lambda>k. bs + int k * timedelta_minutes m)
                                        [0..<nat ((be - bs) div timedelta_minutes m)]) blocks)))"
  by (induction blocks arbitrary: acc) (auto simp: slot_loop_positive)

lemma le_div_iff_int:
  assumes d: "(0::int) < d"
  shows "(a \<le> b div d) = (a * d \<le> b)"
proof
  assume "a \<le> b div d"
  then have "a * d \<le> (b div d) * d" using d by (simp add: mult_right_mono)
  also have "\<dots> = b - b mod d" by (simp add: algebra_simps minus_mod_eq_mult_div)
  also have "\<dots> \<le> b" using d by simp
  finally show "a * d \<le> b" .
next
  assume "a * d \<le> b"
  then have "(a * d) div d \<le> b div d" using d by (rule zdiv_mono1)
  then show "a \<le> b div d" using d by simp
qed

lemma step_count_iff:
  assumes d: "(0::int) < d"
  shows "(k < nat ((be - bs) div d)) = (bs + int k * d + d \<le> be)"
proof -
  have "(k < nat ((be - bs) div d)) = (int k + 1 \<le> (be - bs) div d)" by linarith
  also have "\<dots> = ((int k + 1) * d \<le> be - bs)" by (rule le_div_iff_int[OF d])
  also have "\<dots> = (bs + int k * d + d \<le> be)" by (simp add: algebra_simps)
  finally show ?thesis .
qed

text \<open>
  With a duration of zero the loop returns only when its condition fails at once:
  otherwise it never returns.
\<close>

lemma slot_loop_returns_only_if:
  assumes "slot_loop m be cur acc = Some r"
  shows "\<not> (m = 0 \<and> cur \<le> be)"
proof (rule slot_loop.raw_induct[where P = "\<lambda>m be cur acc r. \<not> (m = 0 \<and> cur \<le> be)", OF _ assms])
  fix f m be cur acc r
  assume IH: "\<And>m be cur acc r. f m be cur acc = Some r \<Longrightarrow> \<not> (m = 0 \<and> cur \<le> be)"
    and body: "(if m < 0 \<and> cur + timedelta_minutes m < DATETIME_MIN then Some (Inl OverflowError)
                else if cur + timedelta_minutes m \<le> be
                then f m be (cur + timedelta_minutes m) (acc @ [cur]) else Some (Inr acc))
               = Some (r :: exn + instant list)"
  show "\<not> (m = 0 \<and> cur \<le> be)"
  proof
    assume a: "m = 0 \<and> cur \<le> be"
    then have z: "timedelta_minutes m = 0" by (simp add: timedelta_minutes_def)
    with a body have "f m be cur (acc @ [cur]) = Some r" by simp
    with IH a show False by blast
  qed
qed

text \<open>
  With a negative duration the loop always ends: at once when its condition fails, and
  otherwise by the \<^verbatim>\<open>OverflowError\<close> of the sum that falls below \<^verbatim>\<open>datetime.min\<close>.
\<close>

lemma slot_loop_negative:
  assumes m: "m < 0"
  shows "slot_loop m be cur acc =
           Some (if cur + timedelta_minutes m < DATETIME_MIN \<or> cur + timedelta_minutes m \<le> be
                 then Inl OverflowError else Inr acc)"
proof (induction "nat (cur + timedelta_minutes m - DATETIME_MIN + 1)" arbitrary: cur acc
         rule: less_induct)
  case less
  let ?d = "timedelta_minutes m"
  have dneg: "?d < 0" using m by (simp add: timedelta_minutes_def MINUTE_def SECOND_def mult_less_0_iff)
  show ?case
  proof (cases "cur + ?d < DATETIME_MIN")
    case True
    with m show ?thesis by (subst slot_loop.simps) simp
  next
    case False
    show ?thesis
    proof (cases "cur + ?d \<le> be")
      case le: True
      have "nat (cur + ?d + ?d - DATETIME_MIN + 1) < nat (cur + ?d - DATETIME_MIN + 1)"
        using False dneg by linarith
      from less[OF this, of "acc @ [cur]"] le dneg
      have "slot_loop m be (cur + ?d) (acc @ [cur]) = Some (Inl OverflowError)"
        by (simp add: algebra_simps)
      with False le show ?thesis by (subst slot_loop.simps) simp
    next
      case gt: False
      with False show ?thesis by (subst slot_loop.simps) simp
    qed
  qed
qed

text \<open>
  The conflict filter on events that carry no offset: the two nested iterations are the
  filter by the overlap test. On an event time with an offset the comparison raises.
\<close>

lemma is_available_loop_naive:
  "\<forall>ev \<in> set events. naive_event ev \<Longrightarrow>
   is_available_loop slot slot_end events =
     Inr (\<forall>ev \<in> set events. \<not> (slot < instant_of (ev_end ev) \<and> slot_end > instant_of (ev_start ev)))"
proof (induction events)
  case Nil
  show ?case by simp
next
  case (Cons ev events)
  then obtain a b where "ev_start ev = Naive a" "ev_end ev = Naive b"
    by (cases "ev_start ev"; cases "ev_end ev") (auto simp: naive_event_def)
  with Cons show ?case by auto
qed

lemma available_slots_loop_naive:
  "\<forall>ev \<in> set events. naive_event ev \<Longrightarrow>
   available_slots_loop m events slots acc =
     Inr (acc @ filter (\<lambda>s. \<forall>ev \<in> set events.
                          \<not> (s < instant_of (ev_end ev)
                             \<and> s + timedelta_minutes m > instant_of (ev_start ev))) slots)"
  by (induction slots arbitrary: acc) (simp_all add: Let_def is_available_loop_naive)

lemma conflict_filter_on_naive_events:
  assumes "\<forall>ev \<in> set events. naive_event ev"
  shows "available_slots_loop m events slots [] =
     Inr (filter (\<lambda>s. \<not> (\<exists>ev \<in> set events. s < instant_of (ev_end ev)
                                \<and> s + timedelta_minutes m > instant_of (ev_start ev))) slots)"
  using assms by (simp add: available_slots_loop_naive)

lemma is_available_loop_raises_TypeError:
  "is_available_loop slot slot_end events = Inl e \<Longrightarrow> e = TypeError"
  by (induction events) (auto split: pytime.splits if_splits)

lemma is_available_loop_True:
  "is_available_loop slot slot_end events = Inr True \<Longrightarrow> ev \<in> set events \<Longrightarrow>
     \<exists>b. ev_end ev = Naive b
        \<and> (slot < b \<longrightarrow> (\<exists>a. ev_start ev = Naive a \<and> slot_end \<le> a))"
  by (induction events) (auto split: pytime.splits if_splits)

lemma available_slots_loop_members:
  "available_slots_loop m events slots acc = Inr result \<Longrightarrow> s \<in> set result \<Longrightarrow>
     s \<in> set acc \<or> is_available_loop s (s + timedelta_minutes m) events = Inr True"
proof (induction slots arbitrary: acc)
  case Nil
  then show ?case by simp
next
  case (Cons x slots)
  then show ?case
    by (fastforce simp: Let_def split: sum.splits if_splits)
qed

lemma make_time_blocks_example:
  "make_time_blocks date (zip [(9, 0), (13, 0)] [(12, 0), (18, 0)]) =
     Inr [(date_of date * DAY + 9 * HOUR, date_of date * DAY + 12 * HOUR),
          (date_of date * DAY + 13 * HOUR, date_of date * DAY + 18 * HOUR)]"
  by (simp add: replace_hm_def)

lemma all_slots_loop_example:
  "all_slots_loop 60 [(D + 9 * HOUR, D + 12 * HOUR), (D + 13 * HOUR, D + 18 * HOUR)] [] =
     Some (Inr (map (\<lambda>h. D + h * HOUR) [9, 10, 11, 13, 14, 15, 16, 17]))"
  by (subst all_slots_loop_positive)
     (simp_all add: timedelta_minutes_def HOUR_def MINUTE_def SECOND_def upt_conv_Cons)

text \<open>
  Claim C3. With a positive duration, slot generation returns, for the blocks in their
  given order, the starts \<open>block_start + k * duration\<close> for \<open>k = 0, 1, ...\<close>, where \<open>k\<close>
  is below the count of a block exactly when \<open>block_start + k * duration + duration\<close> is at
  most \<open>block_end\<close>. A block whose end is not after its start adds nothing and raises
  nothing (\<open>Inr\<close> is a list returned, \<open>Some\<close> that the iteration ends). For the blocks
  9:00 to 12:00 and 13:00 to 18:00 of any day and a duration of 60 minutes the result is
  the eight starts 9:00, 10:00, 11:00, 13:00, ..., 17:00, and each of them ends by 12:00 or
  starts at 13:00 or later.
\<close>

theorem slot_generation_steps_through_each_block:
  assumes "0 < m"
  shows "all_slots_loop m blocks [] =
           Some (Inr (concat (map (\<lambda>(bs, be). map (\<lambda>k. bs + int k * timedelta_minutes m)
                                         [0..<nat ((be - bs) div timedelta_minutes m)]) blocks)))
       \<and> (\<forall>bs be k. (k < nat ((be - bs) div timedelta_minutes m))
                     = (bs + int k * timedelta_minutes m + timedelta_minutes m \<le> be))
       \<and> (\<forall>bs be acc. be \<le> bs \<longrightarrow> slot_loop m be bs acc = Some (Inr acc))
       \<and> (\<forall>date.
             (case make_time_blocks date (zip [(9, 0), (13, 0)] [(12, 0), (18, 0)]) of
                Inr time_blocks \<Rightarrow> all_slots_loop 60 time_blocks []
              | Inl e \<Rightarrow> None) =
               Some (Inr (map (\<lambda>h. date_of date * DAY + h * HOUR) [9, 10, 11, 13, 14, 15, 16, 17]))
           \<and> length (map (\<lambda>h. date_of date * DAY + h * HOUR) [9, 10, 11, 13, 14, 15, 16, 17]) = 8
           \<and> (\<forall>s \<in> set (map (\<lambda>h. date_of date * DAY + h * HOUR) [9, 10, 11, 13, 14, 15, 16, 17]).
                 s + timedelta_minutes 60 \<le> date_of date * DAY + 12 * HOUR
               \<or> date_of date * DAY + 13 * HOUR \<le> s))"
proof (intro conjI allI impI ballI)
  show "all_slots_loop m blocks [] =
           Some (Inr (concat (map (\<lambda>(bs, be). map (\<lambda>k. bs + int k * timedelta_minutes m)
                                         [0..<nat ((be - bs) div timedelta_minutes m)]) blocks)))"
    using all_slots_loop_positive[OF assms, of blocks "[]"] by simp
next
  fix bs be k
  show "(k < nat ((be - bs) div timedelta_minutes m))
          = (bs + int k * timedelta_minutes m + timedelta_minutes m \<le> be)"
    by (rule step_count_iff[OF timedelta_minutes_pos[OF assms]])
next
  fix bs be :: instant and acc
  assume "be \<le> bs"
  then have "\<not> bs + timedelta_minutes m \<le> be" using timedelta_minutes_pos[OF assms] by linarith
  then show "slot_loop m be bs acc = Some (Inr acc)"
    using assms by (subst slot_loop.simps) simp
next
  fix date
  show "(case make_time_blocks date (zip [(9, 0), (13, 0)] [(12, 0), (18, 0)]) of
                Inr time_blocks \<Rightarrow> all_slots_loop 60 time_blocks []
              | Inl e \<Rightarrow> None) =
               Some (Inr (map (\<lambda>h. date_of date * DAY + h * HOUR) [9, 10, 11, 13, 14, 15, 16, 17]))"
    unfolding make_time_blocks_example sum.case all_slots_loop_example ..
next
  fix date
  show "length (map (\<lambda>h. date_of date * DAY + h * HOUR) [9, 10, 11, 13, 14, 15, 16, 17]) = 8"
    by simp
next
  fix date s
  assume "s \<in> set (map (\<lambda>h. date_of date * DAY + h * HOUR) [9, 10, 11, 13, 14, 15, 16, 17])"
  then show "s + timedelta_minutes 60 \<le> date_of date * DAY + 12 * HOUR
               \<or> date_of date * DAY + 13 * HOUR \<le> s"
    by (auto simp: timedelta_minutes_def HOUR_def MINUTE_def SECOND_def)
qed

theorem slot_generation_steps_through_each_block_witness:
  "(0::int) < 30
   \<and> all_slots_loop 30 [(0, 90 * MINUTE), (200 * MINUTE, 200 * MINUTE), (300 * MINUTE, 359 * MINUTE)] []
       = Some (Inr [0, 30 * MINUTE, 60 * MINUTE, 300 * MINUTE])
   \<and> slot_loop 30 (9 * HOUR) (12 * HOUR) [] = Some (Inr [])"
proof -
  have pos: "(0::int) < 30" by simp
  note inst = slot_generation_steps_through_each_block[OF pos,
      of "[(0, 90 * MINUTE), (200 * MINUTE, 200 * MINUTE), (300 * MINUTE, 359 * MINUTE)]"]
  have a: "all_slots_loop 30 [(0, 90 * MINUTE), (200 * MINUTE, 200 * MINUTE), (300 * MINUTE, 359 * MINUTE)] []
       = Some (Inr [0, 30 * MINUTE, 60 * MINUTE, 300 * MINUTE])"
    unfolding inst[THEN conjunct1]
    by (simp add: timedelta_minutes_def MINUTE_def SECOND_def upt_conv_Cons)
  have "9 * HOUR \<le> 12 * HOUR" by (simp add: HOUR_def MINUTE_def SECOND_def)
  with inst have b: "slot_loop 30 (9 * HOUR) (12 * HOUR) [] = Some (Inr [])" by blast
  from pos a b show ?thesis by blast
qed

text \<open>
  Claim C2: the conflict filter excludes a slot exactly when some busy interval overlaps
  it. The code does so on events without an offset (the lemmas above) and misses it on
  the events the Calendar API reports for timed entries, whose times carry an offset or a
  \<^verbatim>\<open>Z\<close>: there the first comparison of a slot with the event raises \<^verbatim>\<open>TypeError\<close>, which
  the handler of \<^verbatim>\<open>HttpError\<close> does not catch, so that the filter and the whole slot query
  raise, for the overlapping slot and for every other one.
\<close>

theorem conflict_filter_raises_on_offset_aware_event:
  "available_slots_loop 60 [\<lparr>ev_start = Aware (14 * HOUR), ev_end = Aware (15 * HOUR)\<rparr>]
       [13 * HOUR, 14 * HOUR, 15 * HOUR] [] = Inl TypeError
   \<and> calendar_get_available_slots offset_calendar 0 [(9, 0)] [(18, 0)] 60 = Raise TypeError
   \<and> available_slots_loop 60 [\<lparr>ev_start = Naive (14 * HOUR), ev_end = Naive (15 * HOUR)\<rparr>]
       [13 * HOUR, 14 * HOUR, 15 * HOUR] [] = Inr [13 * HOUR, 15 * HOUR]"
proof (intro conjI)
  show "available_slots_loop 60 [\<lparr>ev_start = Aware (14 * HOUR), ev_end = Aware (15 * HOUR)\<rparr>]
       [13 * HOUR, 14 * HOUR, 15 * HOUR] [] = Inl TypeError"
    by simp
  show "calendar_get_available_slots offset_calendar 0 [(9, 0)] [(18, 0)] 60 = Raise TypeError"
    by (simp add: calendar_get_available_slots_def offset_calendar_def example_calendar_def
          replace_hm_def slot_loop_positive timedelta_minutes_def date_of_def DAY_def HOUR_def
          MINUTE_def SECOND_def upt_conv_Cons)
  show "available_slots_loop 60 [\<lparr>ev_start = Naive (14 * HOUR), ev_end = Naive (15 * HOUR)\<rparr>]
       [13 * HOUR, 14 * HOUR, 15 * HOUR] [] = Inr [13 * HOUR, 15 * HOUR]"
    by (simp add: timedelta_minutes_def HOUR_def MINUTE_def SECOND_def)
qed

section \<open>Booking: availability query and re-validation\<close>

lemma DAY_pos: "0 < DAY"
  by (simp add: DAY_def HOUR_def MINUTE_def SECOND_def)

lemma date_of_midnight: "date_of (date_of t * DAY) = date_of t"
  using DAY_pos by (simp add: date_of_def)

lemma replace_hm_midnight: "replace_hm t 0 0 = Inr (date_of t * DAY)"
  by (simp add: replace_hm_def)

lemma replace_hm_same_date:
  "date_of d1 = date_of d2 \<Longrightarrow> replace_hm d1 h m = replace_hm d2 h m"
  by (simp add: replace_hm_def)

lemma make_time_blocks_same_date:
  assumes "date_of d1 = date_of d2"
  shows "make_time_blocks d1 hours = make_time_blocks d2 hours"
proof (induction hours)
  case Nil
  show ?case by simp
next
  case (Cons a hours)
  obtain sh sm eh em where "a = ((sh, sm), (eh, em))" by (metis surj_pair)
  with Cons show ?case by (simp add: replace_hm_same_date[OF assms] cong: sum.case_cong)
qed

lemma calendar_slots_same_date:
  "date_of d1 = date_of d2 \<Longrightarrow>
     calendar_get_available_slots cal d1 starts ends m = calendar_get_available_slots cal d2 starts ends m"
  by (simp add: calendar_get_available_slots_def make_time_blocks_same_date[of d1 d2])

lemma calendar_slots_uninitialised:
  "\<not> service cal \<Longrightarrow> calendar_get_available_slots cal date starts ends m = Return []"
  by (simp add: calendar_get_available_slots_def)

lemma calendar_slots_nonempty_service:
  "calendar_get_available_slots cal date starts ends m = Return slots \<Longrightarrow> slots \<noteq> [] \<Longrightarrow> service cal"
  by (rule ccontr) (simp add: calendar_slots_uninitialised)

lemma future_slots_loop_filter:
  "future_slots_loop now day_slots acc = acc @ filter (\<lambda>slot. now < slot) day_slots"
  by (induction day_slots arbitrary: acc) simp_all

lemma days_loop_concat:
  assumes "\<forall>k \<in> set offsets. \<not> date_of (rd + timedelta_days k) < date_of now \<longrightarrow>
             calendar_get_available_slots cal (rd + timedelta_days k) (business_hours_start bm)
               (business_hours_end bm) (appointment_duration bm) = Return (day_slots k)"
  shows "days_loop cal bm now rd offsets acc =
           Return (acc @ concat (map (\<lambda>k. if date_of (rd + timedelta_days k) < date_of now then []
                                           else filter (\<lambda>slot. now < slot) (day_slots k)) offsets))"
  using assms
  by (induction offsets arbitrary: acc) (simp_all add: Let_def future_slots_loop_filter)

lemma days_loop_first_failure:
  assumes "\<forall>k \<in> set pre. \<not> date_of (rd + timedelta_days k) < date_of now \<longrightarrow>
             calendar_get_available_slots cal (rd + timedelta_days k) (business_hours_start bm)
               (business_hours_end bm) (appointment_duration bm) = Return (day_slots k)"
    and "\<not> date_of (rd + timedelta_days j) < date_of now"
    and "calendar_get_available_slots cal (rd + timedelta_days j) (business_hours_start bm)
               (business_hours_end bm) (appointment_duration bm) = Raise e"
  shows "days_loop cal bm now rd (pre @ j # post) acc = Raise e"
  using assms
  by (induction pre arbitrary: acc) (simp_all add: Let_def)


lemma result_dicts_distinct:
  "time_not_available_result \<noteq> calendar_error_result"
  "time_not_available_result \<noteq> success_result i t n v"
  "calendar_error_result \<noteq> success_result i t n v"
proof -
  have "time_not_available_result ''error'' \<noteq> calendar_error_result ''error''"
    by (simp add: time_not_available_result_def calendar_error_result_def)
  then show "time_not_available_result \<noteq> calendar_error_result" by metis
  have "time_not_available_result ''success'' \<noteq> success_result i t n v ''success''"
    by (simp add: time_not_available_result_def success_result_def)
  then show "time_not_available_result \<noteq> success_result i t n v" by metis
  have "calendar_error_result ''success'' \<noteq> success_result i t n v ''success''"
    by (simp add: calendar_error_result_def success_result_def)
  then show "calendar_error_result \<noteq> success_result i t n v" by metis
qed

lemma create_appointment_calls:
  "service cal \<Longrightarrow>
     snd (create_appointment cal name contact t m svc) =
       [\<lparr>ap_customer_name = name, ap_customer_contact = contact, ap_start = t,
         ap_end = t + timedelta_minutes m, ap_service_type = svc\<rparr>]"
  by (simp add: create_appointment_def Let_def split: sum.splits)

lemma create_booking_rejects:
  assumes "calendar_get_available_slots cal (date_of t * DAY) (business_hours_start bm)
             (business_hours_end bm) (appointment_duration bm) = Return slots"
    and "\<not> (\<exists>slot \<in> set slots. \<bar>slot - t\<bar> < 60 * SECOND)"
  shows "create_booking cal bm uid name t svc = (Return time_not_available_result, [])"
  using assms by (simp add: create_booking_def replace_hm_midnight list_ex_iff)

lemma create_booking_accepts:
  assumes "calendar_get_available_slots cal (date_of t * DAY) (business_hours_start bm)
             (business_hours_end bm) (appointment_duration bm) = Return slots"
    and "\<exists>slot \<in> set slots. \<bar>slot - t\<bar> < 60 * SECOND"
  shows "create_booking cal bm uid name t svc =
           (case create_appointment cal name uid t (appointment_duration bm) svc of
              (Return None, calls) \<Rightarrow> (Return calendar_error_result, calls)
            | (Return (Some i), calls) \<Rightarrow>
                (if i \<noteq> [] then (Return (success_result i t name svc), calls)
                 else (Return calendar_error_result, calls))
            | (Raise e, calls) \<Rightarrow> (Raise e, calls)
            | (NoReturn, calls) \<Rightarrow> (NoReturn, calls))"
  using assms
  by (simp add: create_booking_def replace_hm_midnight list_ex_iff
           split: prod.splits outcome.splits option.splits)

lemma create_booking_not_returned:
  "calendar_get_available_slots cal (date_of t * DAY) (business_hours_start bm)
             (business_hours_end bm) (appointment_duration bm) = Raise e
   \<Longrightarrow> create_booking cal bm uid name t svc = (Raise e, [])"
  "calendar_get_available_slots cal (date_of t * DAY) (business_hours_start bm)
             (business_hours_end bm) (appointment_duration bm) = NoReturn
   \<Longrightarrow> create_booking cal bm uid name t svc = (NoReturn, [])"
  by (simp_all add: create_booking_def replace_hm_midnight)

text \<open>
  Claim C1. \<^verbatim>\<open>create_booking\<close> asks the calendar service for the slots of the day of the
  requested time (\<open>slots\<close> below is what that call returns). If some slot is less than
  60 seconds away from the requested time, the create-event call is issued, once, for the
  requested time, and the result is not the \<^verbatim>\<open>time_not_available\<close> rejection. If none is,
  the result is the rejection whose \<^verbatim>\<open>error\<close> field is \<^verbatim>\<open>time_not_available\<close> and no
  create-event call is issued.
\<close>

theorem create_booking_accepts_iff_slot_within_a_minute:
  assumes "calendar_get_available_slots cal (date_of t * DAY) (business_hours_start bm)
             (business_hours_end bm) (appointment_duration bm) = Return slots"
  shows "((\<exists>slot \<in> set slots. \<bar>slot - t\<bar> < 60 * SECOND) \<longrightarrow>
            snd (create_booking cal bm uid name t svc) =
              [\<lparr>ap_customer_name = name, ap_customer_contact = uid, ap_start = t,
                ap_end = t + timedelta_minutes (appointment_duration bm), ap_service_type = svc\<rparr>]
          \<and> fst (create_booking cal bm uid name t svc) \<noteq> Return time_not_available_result)
       \<and> (\<not> (\<exists>slot \<in> set slots. \<bar>slot - t\<bar> < 60 * SECOND) \<longrightarrow>
            create_booking cal bm uid name t svc = (Return time_not_available_result, [])
          \<and> time_not_available_result ''success'' = Some (PBool False)
          \<and> time_not_available_result ''error'' = Some (PStr ''time_not_available''))"
proof (intro conjI impI)
  assume ex: "\<exists>slot \<in> set slots. \<bar>slot - t\<bar> < 60 * SECOND"
  then have "slots \<noteq> []" by auto
  with assms have svc: "service cal" by (rule calendar_slots_nonempty_service)
  obtain r calls where ca: "create_appointment cal name uid t (appointment_duration bm) svc = (r, calls)"
    by (cases "create_appointment cal name uid t (appointment_duration bm) svc")
  have calls: "calls = [\<lparr>ap_customer_name = name, ap_customer_contact = uid, ap_start = t,
                ap_end = t + timedelta_minutes (appointment_duration bm), ap_service_type = svc\<rparr>]"
    using create_appointment_calls[OF svc, of name uid t "appointment_duration bm" svc] ca by simp
  show "snd (create_booking cal bm uid name t svc) =
              [\<lparr>ap_customer_name = name, ap_customer_contact = uid, ap_start = t,
                ap_end = t + timedelta_minutes (appointment_duration bm), ap_service_type = svc\<rparr>]"
    unfolding create_booking_accepts[OF assms ex] ca using calls
    by (simp split: outcome.splits option.splits)
  show "fst (create_booking cal bm uid name t svc) \<noteq> Return time_not_available_result"
    unfolding create_booking_accepts[OF assms ex] ca
    using result_dicts_distinct result_dicts_distinct[symmetric]
    by (simp split: outcome.splits option.splits)
next
  assume "\<not> (\<exists>slot \<in> set slots. \<bar>slot - t\<bar> < 60 * SECOND)"
  then show "create_booking cal bm uid name t svc = (Return time_not_available_result, [])"
    by (rule create_booking_rejects[OF assms])
next
  show "time_not_available_result ''success'' = Some (PBool False)"
    by (simp add: time_not_available_result_def)
next
  show "time_not_available_result ''error'' = Some (PStr ''time_not_available'')"
    by (simp add: time_not_available_result_def)
qed

lemma example_slots_day0:
  "calendar_get_available_slots example_calendar 0 [(9, 0)] [(18, 0)] 60 =
     Return [9 * HOUR, 10 * HOUR, 11 * HOUR, 12 * HOUR, 13 * HOUR, 15 * HOUR, 16 * HOUR, 17 * HOUR]"
  by (simp add: calendar_get_available_slots_def example_calendar_def replace_hm_def date_of_def
        slot_loop_positive timedelta_minutes_def DAY_def HOUR_def MINUTE_def SECOND_def
        upt_conv_Cons Let_def)


lemma example_manager_simps:
  "business_hours_start example_manager = [(9, 0)]"
  "business_hours_end example_manager = [(18, 0)]"
  "appointment_duration example_manager = 60"
  by (simp_all add: example_manager_def)

lemma example_slots_any_time_of_day0:
  "date_of date = 0 \<Longrightarrow>
     calendar_get_available_slots example_calendar date [(9, 0)] [(18, 0)] 60 =
       Return [9 * HOUR, 10 * HOUR, 11 * HOUR, 12 * HOUR, 13 * HOUR, 15 * HOUR, 16 * HOUR, 17 * HOUR]"
  using calendar_slots_same_date[of date 0 example_calendar "[(9, 0)]" "[(18, 0)]" 60]
  by (simp add: example_slots_day0 date_of_def)

text \<open>
  At 30 seconds past 10:00 the booking is accepted; at 60 seconds past 10:00 it is rejected.
\<close>

theorem create_booking_accepts_iff_slot_within_a_minute_witness:
  "calendar_get_available_slots example_calendar (date_of (10 * HOUR + 30 * SECOND) * DAY)
       (business_hours_start example_manager) (business_hours_end example_manager)
       (appointment_duration example_manager) =
     Return [9 * HOUR, 10 * HOUR, 11 * HOUR, 12 * HOUR, 13 * HOUR, 15 * HOUR, 16 * HOUR, 17 * HOUR]
   \<and> snd (create_booking example_calendar example_manager ''u1'' ''Customer''
             (10 * HOUR + 30 * SECOND) ''Haircut'') =
       [\<lparr>ap_customer_name = ''Customer'', ap_customer_contact = ''u1'',
         ap_start = 10 * HOUR + 30 * SECOND, ap_end = 11 * HOUR + 30 * SECOND,
         ap_service_type = ''Haircut''\<rparr>]
   \<and> create_booking example_calendar example_manager ''u1'' ''Customer''
         (10 * HOUR + 60 * SECOND) ''Haircut'' = (Return time_not_available_result, [])"
proof -
  have d1: "date_of (10 * HOUR + 30 * SECOND) = 0" and d2: "date_of (10 * HOUR + 60 * SECOND) = 0"
    by (simp_all add: date_of_def DAY_def HOUR_def MINUTE_def SECOND_def)
  have h1: "calendar_get_available_slots example_calendar (date_of (10 * HOUR + 30 * SECOND) * DAY)
       (business_hours_start example_manager) (business_hours_end example_manager)
       (appointment_duration example_manager) =
     Return [9 * HOUR, 10 * HOUR, 11 * HOUR, 12 * HOUR, 13 * HOUR, 15 * HOUR, 16 * HOUR, 17 * HOUR]"
    by (simp add: d1 example_manager_simps example_slots_day0)
  have h2: "calendar_get_available_slots example_calendar (date_of (10 * HOUR + 60 * SECOND) * DAY)
       (business_hours_start example_manager) (business_hours_end example_manager)
       (appointment_duration example_manager) =
     Return [9 * HOUR, 10 * HOUR, 11 * HOUR, 12 * HOUR, 13 * HOUR, 15 * HOUR, 16 * HOUR, 17 * HOUR]"
    by (simp add: d2 example_manager_simps example_slots_day0)
  have a: "snd (create_booking example_calendar example_manager ''u1'' ''Customer''
             (10 * HOUR + 30 * SECOND) ''Haircut'') =
       [\<lparr>ap_customer_name = ''Customer'', ap_customer_contact = ''u1'',
         ap_start = 10 * HOUR + 30 * SECOND, ap_end = 11 * HOUR + 30 * SECOND,
         ap_service_type = ''Haircut''\<rparr>]"
    using create_booking_accepts_iff_slot_within_a_minute[OF h1, of "''u1''" "''Customer''" "''Haircut''"]
    by (simp add: example_manager_simps timedelta_minutes_def HOUR_def MINUTE_def SECOND_def)
  have b: "create_booking example_calendar example_manager ''u1'' ''Customer''
         (10 * HOUR + 60 * SECOND) ''Haircut'' = (Return time_not_available_result, [])"
    using create_booking_accepts_iff_slot_within_a_minute[OF h2, of "''u1''" "''Customer''" "''Haircut''"]
    by (simp add: HOUR_def MINUTE_def SECOND_def)
  from h1 a b show ?thesis by blast
qed

text \<open>
  Claim C8. When the calendar service returns \<open>day_slots k\<close> for each day of the window
  that is not before today, the availability query returns the first 5 of the list made,
  in day order, of nothing for a day before today and of the slots of \<open>day_slots k\<close>
  strictly later than the call time for any other day.
\<close>

theorem availability_query_skips_filters_concatenates_truncates:
  assumes "\<forall>k < nat num_days.
             \<not> date_of (requested_date + timedelta_days (int k)) < date_of now \<longrightarrow>
             calendar_get_available_slots cal (requested_date + timedelta_days (int k))
               (business_hours_start bm) (business_hours_end bm) (appointment_duration bm)
               = Return (day_slots k)"
  shows "booking_get_available_slots cal bm now requested_date num_days =
           Return (take 5 (concat (map
             (\<lambda>k. if date_of (requested_date + timedelta_days (int k)) < date_of now then []
                  else filter (\<lambda>slot. now < slot) (day_slots k))
             [0..<nat num_days])))"
proof -
  have "\<forall>k \<in> set (map int [0..<nat num_days]).
          \<not> date_of (requested_date + timedelta_days k) < date_of now \<longrightarrow>
          calendar_get_available_slots cal (requested_date + timedelta_days k)
            (business_hours_start bm) (business_hours_end bm) (appointment_duration bm)
            = Return ((day_slots \<circ> nat) k)"
    using assms by auto
  from days_loop_concat[OF this, of "[]"]
  show ?thesis
    by (simp add: booking_get_available_slots_def comp_def cong: if_cong)
qed


text \<open>
  Asked at 10:30 of day 0 for two days from 14:00 of the day before: the first day is
  skipped, and of the six later slots of day 0 the first five are returned.
\<close>

theorem availability_query_skips_filters_concatenates_truncates_witness:
  "booking_get_available_slots example_calendar example_manager (10 * HOUR + 30 * MINUTE)
     (14 * HOUR - DAY) 2 = Return [11 * HOUR, 12 * HOUR, 13 * HOUR, 15 * HOUR, 16 * HOUR]"
proof -
  let ?slots = "[9 * HOUR, 10 * HOUR, 11 * HOUR, 12 * HOUR, 13 * HOUR, 15 * HOUR, 16 * HOUR, 17 * HOUR]"
  have now: "date_of (10 * HOUR + 30 * MINUTE) = 0"
    by (simp add: date_of_def DAY_def HOUR_def MINUTE_def SECOND_def)
  have d0: "date_of (14 * HOUR - DAY + timedelta_days (int 0)) = - 1"
    by (simp add: date_of_def timedelta_days_def DAY_def HOUR_def MINUTE_def SECOND_def)
  have d1: "date_of (14 * HOUR - DAY + timedelta_days (int 1)) = 0"
    by (simp add: date_of_def timedelta_days_def DAY_def HOUR_def MINUTE_def SECOND_def)
  have hyp: "\<forall>k < nat 2.
             \<not> date_of (14 * HOUR - DAY + timedelta_days (int k)) < date_of (10 * HOUR + 30 * MINUTE) \<longrightarrow>
             calendar_get_available_slots example_calendar (14 * HOUR - DAY + timedelta_days (int k))
               (business_hours_start example_manager) (business_hours_end example_manager)
               (appointment_duration example_manager)
               = Return ((\<lambda>k. ?slots) k)"
  proof (intro allI impI)
    fix k :: nat
    assume "k < nat 2"
      and ns: "\<not> date_of (14 * HOUR - DAY + timedelta_days (int k)) < date_of (10 * HOUR + 30 * MINUTE)"
    then have "k = 0 \<or> k = 1" by auto
    with ns d0 now have k: "k = 1" by auto
    show "calendar_get_available_slots example_calendar (14 * HOUR - DAY + timedelta_days (int k))
               (business_hours_start example_manager) (business_hours_end example_manager)
               (appointment_duration example_manager)
               = Return ((\<lambda>k. ?slots) k)"
      unfolding k example_manager_simps using example_slots_any_time_of_day0[OF d1] by simp
  qed
  have up: "[0..<nat 2] = [0, 1]" by (simp add: upt_conv_Cons)
  show ?thesis
    unfolding availability_query_skips_filters_concatenates_truncates[OF hyp] up
    using d0 d1 now by (simp add: HOUR_def MINUTE_def SECOND_def)
qed

lemma calendar_slots_http_error:
  assumes "service cal" and "length starts = length ends"
    and "make_time_blocks date (zip starts ends) = Inr time_blocks" and "time_blocks \<noteq> []"
    and "events_list cal (fst (hd time_blocks)) (snd (last time_blocks)) = Inl HttpError"
  shows "calendar_get_available_slots cal date starts ends m = Return []"
  using assms by (simp add: calendar_get_available_slots_def)

lemma calendar_slots_other_error:
  assumes "service cal" and "length starts = length ends"
    and "make_time_blocks date (zip starts ends) = Inr time_blocks" and "time_blocks \<noteq> []"
    and "events_list cal (fst (hd time_blocks)) (snd (last time_blocks)) = Inl e" and "e \<noteq> HttpError"
  shows "calendar_get_available_slots cal date starts ends m = Raise e"
  using assms by (simp add: calendar_get_available_slots_def)

lemma create_booking_insert_raises:
  assumes "calendar_get_available_slots cal (date_of t * DAY) (business_hours_start bm)
             (business_hours_end bm) (appointment_duration bm) = Return slots"
    and "\<exists>slot \<in> set slots. \<bar>slot - t\<bar> < 60 * SECOND"
    and "events_insert cal \<lparr>ap_customer_name = name, ap_customer_contact = uid, ap_start = t,
             ap_end = t + timedelta_minutes (appointment_duration bm), ap_service_type = svc\<rparr> = Inl e"
    and "e \<noteq> HttpError"
  shows "create_booking cal bm uid name t svc =
           (Raise e, [\<lparr>ap_customer_name = name, ap_customer_contact = uid, ap_start = t,
               ap_end = t + timedelta_minutes (appointment_duration bm), ap_service_type = svc\<rparr>])"
proof -
  from assms(2) have "slots \<noteq> []" by auto
  with assms(1) have svc: "service cal" by (rule calendar_slots_nonempty_service)
  have "create_appointment cal name uid t (appointment_duration bm) svc =
           (Raise e, [\<lparr>ap_customer_name = name, ap_customer_contact = uid, ap_start = t,
               ap_end = t + timedelta_minutes (appointment_duration bm), ap_service_type = svc\<rparr>])"
    using svc assms(3,4) by (simp add: create_appointment_def Let_def)
  then show ?thesis
    unfolding create_booking_accepts[OF assms(1,2)] by simp
qed

text \<open>
  Claim C9, as amended. When re-validation has accepted the time and the commit step
  obtains no event identifier by returning (\<^verbatim>\<open>create_appointment\<close> returns \<^verbatim>\<open>None\<close>, as it
  does when the insert raises \<^verbatim>\<open>HttpError\<close>, or the empty string), \<^verbatim>\<open>create_booking\<close>
  returns the failure whose \<^verbatim>\<open>error\<close> field is \<^verbatim>\<open>calendar_error\<close>, which differs from
  \<^verbatim>\<open>time_not_available\<close>. When the insert raises any other exception, \<^verbatim>\<open>create_booking\<close>
  raises it, after the insert call was issued. When the calendar service is not
  initialised, or the read of the events raises \<^verbatim>\<open>HttpError\<close>, the slot query returns the
  empty list; and on an empty list of slots \<^verbatim>\<open>create_booking\<close> returns the
  \<^verbatim>\<open>time_not_available\<close> rejection. When the read raises any other exception, the slot
  query raises it.
\<close>

theorem commit_failure_is_calendar_error_and_http_read_failure_is_empty:
  "(calendar_get_available_slots cal (date_of t * DAY) (business_hours_start bm)
        (business_hours_end bm) (appointment_duration bm) = Return slots
      \<and> (\<exists>slot \<in> set slots. \<bar>slot - t\<bar> < 60 * SECOND)
      \<and> fst (create_appointment cal name uid t (appointment_duration bm) svc) = Return event_id
      \<and> (event_id = None \<or> event_id = Some [])
      \<longrightarrow> fst (create_booking cal bm uid name t svc) = Return calendar_error_result)
   \<and> (service cal
      \<and> events_insert cal \<lparr>ap_customer_name = name, ap_customer_contact = uid, ap_start = t,
            ap_end = t + timedelta_minutes (appointment_duration bm), ap_service_type = svc\<rparr>
          = Inl HttpError
      \<longrightarrow> fst (create_appointment cal name uid t (appointment_duration bm) svc) = Return None)
   \<and> (calendar_get_available_slots cal (date_of t * DAY) (business_hours_start bm)
        (business_hours_end bm) (appointment_duration bm) = Return slots
      \<and> (\<exists>slot \<in> set slots. \<bar>slot - t\<bar> < 60 * SECOND)
      \<and> events_insert cal \<lparr>ap_customer_name = name, ap_customer_contact = uid, ap_start = t,
            ap_end = t + timedelta_minutes (appointment_duration bm), ap_service_type = svc\<rparr>
          = Inl e
      \<and> e \<noteq> HttpError
      \<longrightarrow> create_booking cal bm uid name t svc =
            (Raise e, [\<lparr>ap_customer_name = name, ap_customer_contact = uid, ap_start = t,
               ap_end = t + timedelta_minutes (appointment_duration bm), ap_service_type = svc\<rparr>]))
   \<and> calendar_error_result ''success'' = Some (PBool False)
   \<and> calendar_error_result ''error'' = Some (PStr ''calendar_error'')
   \<and> calendar_error_result ''error'' \<noteq> time_not_available_result ''error''
   \<and> (\<not> service cal \<longrightarrow> calendar_get_available_slots cal date starts ends m = Return [])
   \<and> (service cal \<and> length starts = length ends
        \<and> make_time_blocks date (zip starts ends) = Inr time_blocks \<and> time_blocks \<noteq> []
        \<and> events_list cal (fst (hd time_blocks)) (snd (last time_blocks)) = Inl HttpError
      \<longrightarrow> calendar_get_available_slots cal date starts ends m = Return [])
   \<and> (calendar_get_available_slots cal (date_of t * DAY) (business_hours_start bm)
        (business_hours_end bm) (appointment_duration bm) = Return []
      \<longrightarrow> create_booking cal bm uid name t svc = (Return time_not_available_result, []))
   \<and> (service cal \<and> length starts = length ends
        \<and> make_time_blocks date (zip starts ends) = Inr time_blocks \<and> time_blocks \<noteq> []
        \<and> events_list cal (fst (hd time_blocks)) (snd (last time_blocks)) = Inl e'
        \<and> e' \<noteq> HttpError
      \<longrightarrow> calendar_get_available_slots cal date starts ends m = Raise e')"
proof (intro conjI impI)
  assume a: "calendar_get_available_slots cal (date_of t * DAY) (business_hours_start bm)
        (business_hours_end bm) (appointment_duration bm) = Return slots
      \<and> (\<exists>slot \<in> set slots. \<bar>slot - t\<bar> < 60 * SECOND)
      \<and> fst (create_appointment cal name uid t (appointment_duration bm) svc) = Return event_id
      \<and> (event_id = None \<or> event_id = Some [])"
  obtain r calls where ca: "create_appointment cal name uid t (appointment_duration bm) svc = (r, calls)"
    by (cases "create_appointment cal name uid t (appointment_duration bm) svc")
  with a have r: "r = Return event_id" by simp
  from a have acc: "create_booking cal bm uid name t svc =
           (case create_appointment cal name uid t (appointment_duration bm) svc of
              (Return None, calls) \<Rightarrow> (Return calendar_error_result, calls)
            | (Return (Some i), calls) \<Rightarrow>
                (if i \<noteq> [] then (Return (success_result i t name svc), calls)
                 else (Return calendar_error_result, calls))
            | (Raise e, calls) \<Rightarrow> (Raise e, calls)
            | (NoReturn, calls) \<Rightarrow> (NoReturn, calls))"
    by (intro create_booking_accepts) auto
  from a show "fst (create_booking cal bm uid name t svc) = Return calendar_error_result"
    unfolding acc ca r by auto
next
  assume "service cal
      \<and> events_insert cal \<lparr>ap_customer_name = name, ap_customer_contact = uid, ap_start = t,
            ap_end = t + timedelta_minutes (appointment_duration bm), ap_service_type = svc\<rparr>
          = Inl HttpError"
  then show "fst (create_appointment cal name uid t (appointment_duration bm) svc) = Return None"
    by (simp add: create_appointment_def Let_def)
next
  assume a: "calendar_get_available_slots cal (date_of t * DAY) (business_hours_start bm)
        (business_hours_end bm) (appointment_duration bm) = Return slots
      \<and> (\<exists>slot \<in> set slots. \<bar>slot - t\<bar> < 60 * SECOND)
      \<and> events_insert cal \<lparr>ap_customer_name = name, ap_customer_contact = uid, ap_start = t,
            ap_end = t + timedelta_minutes (appointment_duration bm), ap_service_type = svc\<rparr>
          = Inl e
      \<and> e \<noteq> HttpError"
  show "create_booking cal bm uid name t svc =
            (Raise e, [\<lparr>ap_customer_name = name, ap_customer_contact = uid, ap_start = t,
               ap_end = t + timedelta_minutes (appointment_duration bm), ap_service_type = svc\<rparr>])"
    by (rule create_booking_insert_raises[where slots = slots]) (use a in blast)+
next
  show "calendar_error_result ''success'' = Some (PBool False)"
    by (simp add: calendar_error_result_def)
next
  show "calendar_error_result ''error'' = Some (PStr ''calendar_error'')"
    by (simp add: calendar_error_result_def)
next
  show "calendar_error_result ''error'' \<noteq> time_not_available_result ''error''"
    by (simp add: calendar_error_result_def time_not_available_result_def)
next
  assume "\<not> service cal"
  then show "calendar_get_available_slots cal date starts ends m = Return []"
    by (rule calendar_slots_uninitialised)
next
  assume "service cal \<and> length starts = length ends
        \<and> make_time_blocks date (zip starts ends) = Inr time_blocks \<and> time_blocks \<noteq> []
        \<and> events_list cal (fst (hd time_blocks)) (snd (last time_blocks)) = Inl HttpError"
  then show "calendar_get_available_slots cal date starts ends m = Return []"
    by (intro calendar_slots_http_error) auto
next
  assume "calendar_get_available_slots cal (date_of t * DAY) (business_hours_start bm)
        (business_hours_end bm) (appointment_duration bm) = Return []"
  then show "create_booking cal bm uid name t svc = (Return time_not_available_result, [])"
    by (rule create_booking_rejects) simp
next
  assume "service cal \<and> length starts = length ends
        \<and> make_time_blocks date (zip starts ends) = Inr time_blocks \<and> time_blocks \<noteq> []
        \<and> events_list cal (fst (hd time_blocks)) (snd (last time_blocks)) = Inl e'
        \<and> e' \<noteq> HttpError"
  then show "calendar_get_available_slots cal date starts ends m = Raise e'"
    by (intro calendar_slots_other_error) auto
qed

lemma insert_failing_slots_day0:
  "calendar_get_available_slots insert_failing_calendar 0 [(9, 0)] [(18, 0)] 60 =
     Return [9 * HOUR, 10 * HOUR, 11 * HOUR, 12 * HOUR, 13 * HOUR, 15 * HOUR, 16 * HOUR, 17 * HOUR]"
  by (simp add: calendar_get_available_slots_def insert_failing_calendar_def example_calendar_def
        replace_hm_def date_of_def slot_loop_positive timedelta_minutes_def DAY_def HOUR_def
        MINUTE_def SECOND_def upt_conv_Cons Let_def)

lemma insert_unreachable_slots_day0:
  "calendar_get_available_slots insert_unreachable_calendar 0 [(9, 0)] [(18, 0)] 60 =
     Return [9 * HOUR, 10 * HOUR, 11 * HOUR, 12 * HOUR, 13 * HOUR, 15 * HOUR, 16 * HOUR, 17 * HOUR]"
  by (simp add: calendar_get_available_slots_def insert_unreachable_calendar_def example_calendar_def
        replace_hm_def date_of_def slot_loop_positive timedelta_minutes_def DAY_def HOUR_def
        MINUTE_def SECOND_def upt_conv_Cons Let_def)

lemma http_error_calendar_slots_day0:
  "calendar_get_available_slots http_error_calendar 0 [(9, 0)] [(18, 0)] 60 = Return []"
  by (simp add: calendar_get_available_slots_def http_error_calendar_def example_calendar_def
        replace_hm_def)

lemma date_of_ten: "date_of (10 * HOUR) = 0"
  by (simp add: date_of_def DAY_def HOUR_def MINUTE_def SECOND_def)

text \<open>
  At 10:00 of day 0, which re-validation accepts: an insert that raises \<^verbatim>\<open>HttpError\<close>
  gives \<^verbatim>\<open>calendar_error\<close>, an insert that raises another exception makes
  \<^verbatim>\<open>create_booking\<close> raise it after the one insert call; a service that is not initialised
  and a read that raises \<^verbatim>\<open>HttpError\<close> give the empty list.
\<close>

theorem commit_failure_is_calendar_error_and_http_read_failure_is_empty_witness:
  "fst (create_booking insert_failing_calendar example_manager ''u1'' ''Customer'' (10 * HOUR)
          ''Haircut'') = Return calendar_error_result
   \<and> create_booking insert_unreachable_calendar example_manager ''u1'' ''Customer'' (10 * HOUR)
          ''Haircut'' =
       (Raise OtherError,
        [\<lparr>ap_customer_name = ''Customer'', ap_customer_contact = ''u1'', ap_start = 10 * HOUR,
          ap_end = 10 * HOUR + timedelta_minutes 60, ap_service_type = ''Haircut''\<rparr>])
   \<and> calendar_get_available_slots uninitialised_calendar 0 [(9, 0)] [(18, 0)] 60 = Return []
   \<and> calendar_get_available_slots http_error_calendar 0 [(9, 0)] [(18, 0)] 60 = Return []"
proof -
  let ?slots = "[9 * HOUR, 10 * HOUR, 11 * HOUR, 12 * HOUR, 13 * HOUR, 15 * HOUR, 16 * HOUR, 17 * HOUR]"
  have h: "calendar_get_available_slots insert_failing_calendar (date_of (10 * HOUR) * DAY)
        (business_hours_start example_manager) (business_hours_end example_manager)
        (appointment_duration example_manager) = Return ?slots"
    by (simp add: date_of_ten example_manager_simps insert_failing_slots_day0)
  have h': "calendar_get_available_slots insert_unreachable_calendar (date_of (10 * HOUR) * DAY)
        (business_hours_start example_manager) (business_hours_end example_manager)
        (appointment_duration example_manager) = Return ?slots"
    by (simp add: date_of_ten example_manager_simps insert_unreachable_slots_day0)
  have ex: "\<exists>slot \<in> set ?slots. \<bar>slot - 10 * HOUR\<bar> < 60 * SECOND"
    by (simp add: HOUR_def MINUTE_def SECOND_def)
  have ca: "fst (create_appointment insert_failing_calendar ''Customer'' ''u1'' (10 * HOUR)
                  (appointment_duration example_manager) ''Haircut'') = Return None"
    by (simp add: create_appointment_def insert_failing_calendar_def example_calendar_def Let_def)
  have a: "fst (create_booking insert_failing_calendar example_manager ''u1'' ''Customer'' (10 * HOUR)
          ''Haircut'') = Return calendar_error_result"
    using commit_failure_is_calendar_error_and_http_read_failure_is_empty[of insert_failing_calendar
        "10 * HOUR" example_manager ?slots "''Customer''" "''u1''" "''Haircut''" None] h ca ex
    by blast
  have ins: "events_insert insert_unreachable_calendar
               \<lparr>ap_customer_name = ''Customer'', ap_customer_contact = ''u1'', ap_start = 10 * HOUR,
                 ap_end = 10 * HOUR + timedelta_minutes (appointment_duration example_manager),
                 ap_service_type = ''Haircut''\<rparr> = Inl OtherError"
    by (simp add: insert_unreachable_calendar_def)
  have a': "create_booking insert_unreachable_calendar example_manager ''u1'' ''Customer'' (10 * HOUR)
          ''Haircut'' =
       (Raise OtherError,
        [\<lparr>ap_customer_name = ''Customer'', ap_customer_contact = ''u1'', ap_start = 10 * HOUR,
          ap_end = 10 * HOUR + timedelta_minutes (appointment_duration example_manager),
          ap_service_type = ''Haircut''\<rparr>])"
    using commit_failure_is_calendar_error_and_http_read_failure_is_empty[of insert_unreachable_calendar
        "10 * HOUR" example_manager ?slots "''Customer''" "''u1''" "''Haircut''" None OtherError] h' ins ex
    by blast
  have b: "calendar_get_available_slots uninitialised_calendar 0 [(9, 0)] [(18, 0)] 60 = Return []"
    using commit_failure_is_calendar_error_and_http_read_failure_is_empty[where cal = uninitialised_calendar]
    by (simp add: uninitialised_calendar_def)
  have mt: "make_time_blocks 0 (zip [(9, 0)] [(18, 0)]) = Inr [(9 * HOUR, 18 * HOUR)]"
    by (simp add: replace_hm_def date_of_def)
  have c: "calendar_get_available_slots http_error_calendar 0 [(9, 0)] [(18, 0)] 60 = Return []"
    using commit_failure_is_calendar_error_and_http_read_failure_is_empty[where cal = http_error_calendar
        and date = 0 and starts = "[(9, 0)]" and ends = "[(18, 0)]"
        and time_blocks = "[(9 * HOUR, 18 * HOUR)]"] mt
    by (simp add: http_error_calendar_def example_calendar_def)
  from a a' b c show ?thesis by (simp add: example_manager_simps)
qed

text \<open>
  Claim C9 as stated fails in three ways: a read that raises anything but \<^verbatim>\<open>HttpError\<close>
  makes the slot query raise; a read that raises \<^verbatim>\<open>HttpError\<close> makes \<^verbatim>\<open>create_booking\<close>
  answer \<^verbatim>\<open>time_not_available\<close> although no slot was taken; and an insert that raises
  anything but \<^verbatim>\<open>HttpError\<close> makes \<^verbatim>\<open>create_booking\<close> raise, where the commit step has
  obtained no identifier and no \<^verbatim>\<open>calendar_error\<close> failure is returned.
\<close>

theorem read_failure_other_than_http_error_counterexample:
  "calendar_get_available_slots unreachable_calendar 0 [(9, 0)] [(18, 0)] 60 = Raise OtherError
   \<and> create_booking http_error_calendar example_manager ''u1'' ''Customer'' (10 * HOUR) ''Haircut''
       = (Return time_not_available_result, [])
   \<and> create_booking insert_unreachable_calendar example_manager ''u1'' ''Customer'' (10 * HOUR)
       ''Haircut'' =
       (Raise OtherError,
        [\<lparr>ap_customer_name = ''Customer'', ap_customer_contact = ''u1'', ap_start = 10 * HOUR,
          ap_end = 11 * HOUR, ap_service_type = ''Haircut''\<rparr>])"
proof (intro conjI)
  show "calendar_get_available_slots unreachable_calendar 0 [(9, 0)] [(18, 0)] 60 = Raise OtherError"
    by (simp add: calendar_get_available_slots_def unreachable_calendar_def example_calendar_def
          replace_hm_def)
  show "create_booking http_error_calendar example_manager ''u1'' ''Customer'' (10 * HOUR) ''Haircut''
       = (Return time_not_available_result, [])"
    by (rule create_booking_rejects[where slots = "[]"])
       (simp_all add: date_of_ten example_manager_simps http_error_calendar_slots_day0)
  let ?slots = "[9 * HOUR, 10 * HOUR, 11 * HOUR, 12 * HOUR, 13 * HOUR, 15 * HOUR, 16 * HOUR, 17 * HOUR]"
  have h: "calendar_get_available_slots insert_unreachable_calendar (date_of (10 * HOUR) * DAY)
        (business_hours_start example_manager) (business_hours_end example_manager)
        (appointment_duration example_manager) = Return ?slots"
    by (simp add: date_of_ten example_manager_simps insert_unreachable_slots_day0)
  have ex: "\<exists>slot \<in> set ?slots. \<bar>slot - 10 * HOUR\<bar> < 60 * SECOND"
    by (simp add: HOUR_def MINUTE_def SECOND_def)
  have ins: "events_insert insert_unreachable_calendar
               \<lparr>ap_customer_name = ''Customer'', ap_customer_contact = ''u1'', ap_start = 10 * HOUR,
                 ap_end = 10 * HOUR + timedelta_minutes (appointment_duration example_manager),
                 ap_service_type = ''Haircut''\<rparr> = Inl OtherError"
    by (simp add: insert_unreachable_calendar_def)
  have "create_booking insert_unreachable_calendar example_manager ''u1'' ''Customer'' (10 * HOUR)
          ''Haircut'' =
       (Raise OtherError,
        [\<lparr>ap_customer_name = ''Customer'', ap_customer_contact = ''u1'', ap_start = 10 * HOUR,
          ap_end = 10 * HOUR + timedelta_minutes (appointment_duration example_manager),
          ap_service_type = ''Haircut''\<rparr>])"
    by (rule create_booking_insert_raises[OF h ex ins]) simp
  then show "create_booking insert_unreachable_calendar example_manager ''u1'' ''Customer'' (10 * HOUR)
       ''Haircut'' =
       (Raise OtherError,
        [\<lparr>ap_customer_name = ''Customer'', ap_customer_contact = ''u1'', ap_start = 10 * HOUR,
          ap_end = 11 * HOUR, ap_service_type = ''Haircut''\<rparr>])"
    by (simp add: example_manager_simps timedelta_minutes_def HOUR_def MINUTE_def SECOND_def)
qed

text \<open>
  Claim C10 as stated fails: asked at 10:30 of day 0 about day 0, the discovery path
  computes the six slots from 11:00 on before it truncates them to five, while
  re-validation accepts 9:00, a slot of the list it computes that is not among the six.
\<close>

theorem discovery_filters_what_revalidation_keeps_counterexample:
  "days_loop example_calendar example_manager (10 * HOUR + 30 * MINUTE) 0 [0] [] =
     Return [11 * HOUR, 12 * HOUR, 13 * HOUR, 15 * HOUR, 16 * HOUR, 17 * HOUR]
   \<and> booking_get_available_slots example_calendar example_manager (10 * HOUR + 30 * MINUTE) 0 1 =
     Return [11 * HOUR, 12 * HOUR, 13 * HOUR, 15 * HOUR, 16 * HOUR]
   \<and> create_booking example_calendar example_manager ''u1'' ''Customer'' (9 * HOUR) ''Haircut'' =
       (Return (success_result ''evt1'' (9 * HOUR) ''Customer'' ''Haircut''),
        [\<lparr>ap_customer_name = ''Customer'', ap_customer_contact = ''u1'', ap_start = 9 * HOUR,
          ap_end = 10 * HOUR, ap_service_type = ''Haircut''\<rparr>])"
proof (intro conjI)
  show dl: "days_loop example_calendar example_manager (10 * HOUR + 30 * MINUTE) 0 [0] [] =
          Return [11 * HOUR, 12 * HOUR, 13 * HOUR, 15 * HOUR, 16 * HOUR, 17 * HOUR]"
    by (simp add: example_manager_simps example_slots_day0 timedelta_days_def date_of_def
          DAY_def HOUR_def MINUTE_def SECOND_def)
  show "booking_get_available_slots example_calendar example_manager (10 * HOUR + 30 * MINUTE) 0 1 =
     Return [11 * HOUR, 12 * HOUR, 13 * HOUR, 15 * HOUR, 16 * HOUR]"
  proof -
    have up: "map int [0..<nat 1] = [0]" by (simp add: upt_conv_Cons)
    show ?thesis unfolding booking_get_available_slots_def up dl by simp
  qed
  have d: "date_of (9 * HOUR) = 0"
    by (simp add: date_of_def DAY_def HOUR_def MINUTE_def SECOND_def)
  let ?slots = "[9 * HOUR, 10 * HOUR, 11 * HOUR, 12 * HOUR, 13 * HOUR, 15 * HOUR, 16 * HOUR, 17 * HOUR]"
  have h: "calendar_get_available_slots example_calendar (date_of (9 * HOUR) * DAY)
        (business_hours_start example_manager) (business_hours_end example_manager)
        (appointment_duration example_manager) = Return ?slots"
    by (simp add: d example_manager_simps example_slots_day0)
  have ex: "\<exists>slot \<in> set ?slots. \<bar>slot - 9 * HOUR\<bar> < 60 * SECOND"
    by (simp add: SECOND_def)
  show "create_booking example_calendar example_manager ''u1'' ''Customer'' (9 * HOUR) ''Haircut'' =
       (Return (success_result ''evt1'' (9 * HOUR) ''Customer'' ''Haircut''),
        [\<lparr>ap_customer_name = ''Customer'', ap_customer_contact = ''u1'', ap_start = 9 * HOUR,
          ap_end = 10 * HOUR, ap_service_type = ''Haircut''\<rparr>])"
    unfolding create_booking_accepts[OF h ex]
    by (simp add: create_appointment_def example_calendar_def example_manager_simps Let_def
          timedelta_minutes_def HOUR_def MINUTE_def SECOND_def)
qed

text \<open>
  Claim C10, as amended. Let \<open>slots\<close> be what the calendar service returns for a discovery
  date, with the configuration of the manager. For a requested time on the day of that
  date, \<^verbatim>\<open>create_booking\<close> decides on the whole of \<open>slots\<close>: it returns the
  \<^verbatim>\<open>time_not_available\<close> rejection, with no insert, exactly when no slot of \<open>slots\<close> is
  less than 60 seconds away from the requested time, and it issues the one insert
  otherwise. The discovery query over that one day returns the first 5 of the slots of
  \<open>slots\<close> strictly later than the call time, and nothing for a day before today.
\<close>

theorem revalidation_decides_on_the_whole_list_discovery_filters_and_truncates:
  assumes "date_of check_date = date_of appointment_time"
    and "calendar_get_available_slots cal check_date (business_hours_start bm)
           (business_hours_end bm) (appointment_duration bm) = Return slots"
  shows "(create_booking cal bm uid name appointment_time svc = (Return time_not_available_result, [])
            \<longleftrightarrow> \<not> (\<exists>slot \<in> set slots. \<bar>slot - appointment_time\<bar> < 60 * SECOND))
       \<and> ((\<exists>slot \<in> set slots. \<bar>slot - appointment_time\<bar> < 60 * SECOND) \<longrightarrow>
            snd (create_booking cal bm uid name appointment_time svc) =
              [\<lparr>ap_customer_name = name, ap_customer_contact = uid, ap_start = appointment_time,
                ap_end = appointment_time + timedelta_minutes (appointment_duration bm),
                ap_service_type = svc\<rparr>])
       \<and> booking_get_available_slots cal bm now check_date 1 =
           Return (take 5 (if date_of check_date < date_of now then []
                           else filter (\<lambda>slot. now < slot) slots))"
proof -
  have same: "date_of check_date = date_of (date_of appointment_time * DAY)"
    using assms(1) by (simp add: date_of_midnight)
  have h: "calendar_get_available_slots cal (date_of appointment_time * DAY) (business_hours_start bm)
           (business_hours_end bm) (appointment_duration bm) = Return slots"
    using calendar_slots_same_date[OF same] assms(2) by simp
  let ?body = "\<lparr>ap_customer_name = name, ap_customer_contact = uid, ap_start = appointment_time,
                ap_end = appointment_time + timedelta_minutes (appointment_duration bm),
                ap_service_type = svc\<rparr>"
  have acc: "snd (create_booking cal bm uid name appointment_time svc) = [?body]"
    if ex: "\<exists>slot \<in> set slots. \<bar>slot - appointment_time\<bar> < 60 * SECOND"
  proof -
    from ex have "slots \<noteq> []" by auto
    with h have svc: "service cal" by (rule calendar_slots_nonempty_service)
    obtain r calls where ca:
      "create_appointment cal name uid appointment_time (appointment_duration bm) svc = (r, calls)"
      by (cases "create_appointment cal name uid appointment_time (appointment_duration bm) svc")
    have calls: "calls = [?body]"
      using create_appointment_calls[OF svc, of name uid appointment_time "appointment_duration bm" svc] ca
      by simp
    show ?thesis
      unfolding create_booking_accepts[OF h ex] ca using calls
      by (simp split: outcome.splits option.splits)
  qed
  have rej: "create_booking cal bm uid name appointment_time svc = (Return time_not_available_result, [])"
    if "\<not> (\<exists>slot \<in> set slots. \<bar>slot - appointment_time\<bar> < 60 * SECOND)"
    using that by (rule create_booking_rejects[OF h])
  have disc: "booking_get_available_slots cal bm now check_date 1 =
           Return (take 5 (if date_of check_date < date_of now then []
                           else filter (\<lambda>slot. now < slot) slots))"
    using assms(2)
    by (simp add: booking_get_available_slots_def upt_conv_Cons timedelta_days_def Let_def
          future_slots_loop_filter)
  from acc rej disc show ?thesis by fastforce
qed

text \<open>
  At 10:30 of day 0, for the discovery date 9:00 of day 0: discovery returns the five slots
  from 11:00 to 16:00, and a booking at 17:00, which is not among them, is accepted.
\<close>

theorem revalidation_decides_on_the_whole_list_discovery_filters_and_truncates_witness:
  "date_of (9 * HOUR) = date_of (17 * HOUR)
   \<and> calendar_get_available_slots example_calendar (9 * HOUR) (business_hours_start example_manager)
         (business_hours_end example_manager) (appointment_duration example_manager) =
       Return [9 * HOUR, 10 * HOUR, 11 * HOUR, 12 * HOUR, 13 * HOUR, 15 * HOUR, 16 * HOUR, 17 * HOUR]
   \<and> create_booking example_calendar example_manager ''u1'' ''Customer'' (17 * HOUR) ''Haircut''
       \<noteq> (Return time_not_available_result, [])
   \<and> snd (create_booking example_calendar example_manager ''u1'' ''Customer'' (17 * HOUR) ''Haircut'') =
       [\<lparr>ap_customer_name = ''Customer'', ap_customer_contact = ''u1'', ap_start = 17 * HOUR,
         ap_end = 18 * HOUR, ap_service_type = ''Haircut''\<rparr>]
   \<and> booking_get_available_slots example_calendar example_manager (10 * HOUR + 30 * MINUTE)
         (9 * HOUR) 1 = Return [11 * HOUR, 12 * HOUR, 13 * HOUR, 15 * HOUR, 16 * HOUR]"
proof -
  let ?slots = "[9 * HOUR, 10 * HOUR, 11 * HOUR, 12 * HOUR, 13 * HOUR, 15 * HOUR, 16 * HOUR, 17 * HOUR]"
  have d: "date_of (9 * HOUR) = date_of (17 * HOUR)" and d9: "date_of (9 * HOUR) = 0"
    and now: "date_of (10 * HOUR + 30 * MINUTE) = 0"
    by (simp_all add: date_of_def DAY_def HOUR_def MINUTE_def SECOND_def)
  have h: "calendar_get_available_slots example_calendar (9 * HOUR) (business_hours_start example_manager)
         (business_hours_end example_manager) (appointment_duration example_manager) = Return ?slots"
    unfolding example_manager_simps by (rule example_slots_any_time_of_day0[OF d9])
  have ex: "\<exists>slot \<in> set ?slots. \<bar>slot - 17 * HOUR\<bar> < 60 * SECOND"
    by (simp add: SECOND_def)
  note inst = revalidation_decides_on_the_whole_list_discovery_filters_and_truncates[OF d h,
      of "''u1''" "''Customer''" "''Haircut''" "10 * HOUR + 30 * MINUTE"]
  have a: "create_booking example_calendar example_manager ''u1'' ''Customer'' (17 * HOUR) ''Haircut''
       \<noteq> (Return time_not_available_result, [])"
    using inst ex by blast
  have b: "snd (create_booking example_calendar example_manager ''u1'' ''Customer'' (17 * HOUR) ''Haircut'') =
       [\<lparr>ap_customer_name = ''Customer'', ap_customer_contact = ''u1'', ap_start = 17 * HOUR,
         ap_end = 17 * HOUR + timedelta_minutes (appointment_duration example_manager),
         ap_service_type = ''Haircut''\<rparr>]"
    using inst ex by blast
  have c: "booking_get_available_slots example_calendar example_manager (10 * HOUR + 30 * MINUTE)
         (9 * HOUR) 1 =
       Return (take 5 (if date_of (9 * HOUR) < date_of (10 * HOUR + 30 * MINUTE) then []
                       else filter (\<lambda>slot. 10 * HOUR + 30 * MINUTE < slot) ?slots))"
    using inst by blast
  have b': "snd (create_booking example_calendar example_manager ''u1'' ''Customer'' (17 * HOUR) ''Haircut'') =
       [\<lparr>ap_customer_name = ''Customer'', ap_customer_contact = ''u1'', ap_start = 17 * HOUR,
         ap_end = 18 * HOUR, ap_service_type = ''Haircut''\<rparr>]"
    unfolding b by (simp add: example_manager_simps timedelta_minutes_def HOUR_def MINUTE_def SECOND_def)
  have c': "booking_get_available_slots example_calendar example_manager (10 * HOUR + 30 * MINUTE)
         (9 * HOUR) 1 = Return [11 * HOUR, 12 * HOUR, 13 * HOUR, 15 * HOUR, 16 * HOUR]"
    unfolding c d9 now by (simp add: HOUR_def MINUTE_def SECOND_def)
  from d h a b' c' show ?thesis by blast
qed

text \<open>
  Two bookings of one slot, one after the other. \<^verbatim>\<open>create_booking\<close> holds no \<^verbatim>\<open>await\<close>, so
  two calls on the one event loop run one after the other, and the second one reads the
  calendar after the insert of the first. When that read shows the inserted event without
  an offset, no slot that passes the conflict filter is less than a minute away from the
  booked time (the duration being at least one minute), so the second call issues no
  insert and, when its slot query returns, answers \<^verbatim>\<open>time_not_available\<close>.
\<close>

lemma calendar_slots_pass_the_filter:
  assumes "calendar_get_available_slots cal date starts ends m = Return slots"
    and "s \<in> set slots"
  shows "\<exists>tmin tmax events. events_list cal tmin tmax = Inr events
           \<and> is_available_loop s (s + timedelta_minutes m) events = Inr True"
  using assms available_slots_loop_members[of m _ _ "[]" slots s]
  by (fastforce simp: calendar_get_available_slots_def Let_def
        split: if_splits sum.splits option.splits)

lemma second_booking_of_a_slot_is_rejected:
  assumes dur: "1 \<le> appointment_duration bm"
    and shown: "\<And>tmin tmax events. events_list cal tmin tmax = Inr events \<Longrightarrow>
           \<lparr>ev_start = Naive t, ev_end = Naive (t + timedelta_minutes (appointment_duration bm))\<rparr>
             \<in> set events"
  shows "snd (create_booking cal bm uid name t svc) = []"
    and "fst (create_booking cal bm uid name t svc) = Return r \<Longrightarrow> r = time_not_available_result"
proof -
  let ?d = "timedelta_minutes (appointment_duration bm)"
  let ?q = "calendar_get_available_slots cal (date_of t * DAY) (business_hours_start bm)
             (business_hours_end bm) (appointment_duration bm)"
  have d: "60 * SECOND \<le> ?d"
    using dur by (simp add: timedelta_minutes_def MINUTE_def SECOND_def)
  have rej: "create_booking cal bm uid name t svc = (Return time_not_available_result, [])"
    if q: "?q = Return slots" for slots
  proof (rule create_booking_rejects[OF q], rule notI)
    assume "\<exists>slot \<in> set slots. \<bar>slot - t\<bar> < 60 * SECOND"
    then obtain s where s: "s \<in> set slots" and near: "\<bar>s - t\<bar> < 60 * SECOND" by blast
    from calendar_slots_pass_the_filter[OF q s] obtain tmin tmax events
      where ev: "events_list cal tmin tmax = Inr events"
        and av: "is_available_loop s (s + ?d) events = Inr True" by blast
    from is_available_loop_True[OF av shown[OF ev]]
    have "s < t + ?d \<longrightarrow> s + ?d \<le> t" by simp
    with near d show False by linarith
  qed
  show "snd (create_booking cal bm uid name t svc) = []"
  proof (cases ?q)
    case (Return slots)
    then show ?thesis by (simp add: rej)
  next
    case (Raise e)
    then show ?thesis by (simp add: create_booking_not_returned)
  next
    case NoReturn
    then show ?thesis by (simp add: create_booking_not_returned)
  qed
  show "r = time_not_available_result" if "fst (create_booking cal bm uid name t svc) = Return r"
  proof (cases ?q)
    case (Return slots)
    with that show ?thesis by (simp add: rej)
  next
    case (Raise e)
    with that show ?thesis by (simp add: create_booking_not_returned)
  next
    case NoReturn
    with that show ?thesis by (simp add: create_booking_not_returned)
  qed
qed





section \<open>The conversation engine\<close>

lemma last_n_short: "length xs \<le> n \<Longrightarrow> last_n n xs = xs"
  by (simp add: last_n_def)

lemma length_last_n: "length (last_n n xs) = min n (length xs)"
  by (simp add: last_n_def)

lemma last_n_append_long: "n \<le> length ys \<Longrightarrow> last_n n (xs @ ys) = last_n n ys"
  by (simp add: last_n_def)

lemma handle_intent_history:
  "handle_intent bm env uid intent msg state = (state', out, calls) \<Longrightarrow> history state' = history state"
  by (auto simp: handle_intent_def Let_def
        split: if_splits option.splits outcome.splits pyval.splits)

lemma handle_intent_customer_name:
  "handle_intent bm env uid intent msg state = (state', out, calls) \<Longrightarrow>
     state_customer_name state' = state_customer_name state"
  by (auto simp: handle_intent_def Let_def
        split: if_splits option.splits outcome.splits pyval.splits)

lemma extract_confirmed_time_absent:
  "booking_data state ''proposed_time'' = None \<Longrightarrow> extract_confirmed_time msg state = None"
  by (simp add: extract_confirmed_time_def Let_def)

lemma handle_intent_without_proposed_time:
  assumes "booking_data state ''proposed_time'' = None"
    and "handle_intent bm env uid intent msg state = (state', out, calls)"
  shows "booking_data state' = booking_data state \<and> calls = []
       \<and> (stage state \<noteq> Completed \<longrightarrow> stage state' \<noteq> Completed)"
  using assms(2)
  by (auto simp: handle_intent_def Let_def extract_confirmed_time_absent[OF assms(1)]
        split: if_splits option.splits outcome.splits)

lemma handle_intent_confirm_without_proposed_time:
  assumes "booking_data state ''proposed_time'' = None"
    and "stage state = ShowingAvailability \<or> stage state = AwaitingConfirmation"
  shows "handle_intent bm env uid ''confirm_booking'' msg state =
           (state\<lparr>stage := AwaitingConfirmation\<rparr>, Return ClarifyTimeResponse, [])"
  using assms(2)
  by (auto simp: handle_intent_def Let_def extract_confirmed_time_absent[OF assms(1)])


lemma route_message_result:
  assumes "state0 = (case cs uid of None \<Rightarrow> initial_state | Some st \<Rightarrow> st)"
    and "handle_intent bm env uid
           (detect_intent env msg (state0\<lparr>history := history state0 @ [UserTurn msg]\<rparr>))
           msg (state0\<lparr>history := history state0 @ [UserTurn msg]\<rparr>)
         = (state2, out, calls)"
  shows "route_message bm env cs uid msg =
           (cs(uid \<mapsto> (case out of
                           Return response \<Rightarrow>
                             state2\<lparr>history := last_n 10 (history state2 @ [AssistantTurn response])\<rparr>
                         | _ \<Rightarrow> state2)),
            out, calls)"
proof (cases out)
  case (Return response)
  show ?thesis
  proof (cases "length (history state2 @ [AssistantTurn response]) > 10")
    case True
    with Return assms show ?thesis by (simp add: route_message_def Let_def)
  next
    case False
    then have "last_n 10 (history state2 @ [AssistantTurn response])
                 = history state2 @ [AssistantTurn response]"
      by (simp add: last_n_short)
    with False Return assms show ?thesis by (simp add: route_message_def Let_def)
  qed
next
  case (Raise e)
  with assms show ?thesis by (simp add: route_message_def Let_def)
next
  case NoReturn
  with assms show ?thesis by (simp add: route_message_def Let_def)
qed

lemma route_message_clean:
  assumes clean: "\<forall>u st. cs u = Some st \<longrightarrow>
                    booking_data st ''proposed_time'' = None \<and> stage st \<noteq> Completed"
    and rm: "route_message bm env cs uid msg = (cs', out, calls)"
  shows "(\<forall>u st. cs' u = Some st \<longrightarrow>
            booking_data st ''proposed_time'' = None \<and> stage st \<noteq> Completed) \<and> calls = []"
proof -
  define state0 where "state0 = (case cs uid of None \<Rightarrow> initial_state | Some st \<Rightarrow> st)"
  define state1 where "state1 = state0\<lparr>history := history state0 @ [UserTurn msg]\<rparr>"
  have c0: "booking_data state0 ''proposed_time'' = None \<and> stage state0 \<noteq> Completed"
    using clean by (auto simp: state0_def initial_state_def split: option.splits)
  then have c1: "booking_data state1 ''proposed_time'' = None" "stage state1 \<noteq> Completed"
    by (simp_all add: state1_def)
  obtain state2 out2 calls2 where
    hi: "handle_intent bm env uid (detect_intent env msg state1) msg state1 = (state2, out2, calls2)"
    by (metis prod_cases3)
  from handle_intent_without_proposed_time[OF c1(1) hi] c1
  have c2: "booking_data state2 ''proposed_time'' = None" "stage state2 \<noteq> Completed" "calls2 = []"
    by simp_all
  from route_message_result[of state0 cs uid, OF state0_def hi[unfolded state1_def]] rm
  have cs': "cs' = cs(uid \<mapsto> (case out2 of
                           Return response \<Rightarrow>
                             state2\<lparr>history := last_n 10 (history state2 @ [AssistantTurn response])\<rparr>
                         | _ \<Rightarrow> state2))" and "calls = calls2"
    by simp_all
  with c2 clean show ?thesis by (auto split: outcome.splits if_splits)
qed

lemma run_clean:
  assumes "\<forall>u st. cs0 u = Some st \<longrightarrow>
             booking_data st ''proposed_time'' = None \<and> stage st \<noteq> Completed"
    and "run bm cs0 requests = Some (cs, outs, calls)"
  shows "(\<forall>u st. cs u = Some st \<longrightarrow>
            booking_data st ''proposed_time'' = None \<and> stage st \<noteq> Completed) \<and> calls = []"
  using assms
proof (induction requests arbitrary: cs0 outs calls)
  case Nil
  then show ?case by simp
next
  case (Cons q requests)
  obtain env uid msg where q: "q = (env, uid, msg)" by (metis prod_cases3)
  obtain cs1 out1 calls1 where rm: "route_message bm env cs0 uid msg = (cs1, out1, calls1)"
    by (metis prod_cases3)
  from Cons.prems(2) q rm obtain outs' calls' where
    rest: "run bm cs1 requests = Some (cs, outs', calls')" and calls: "calls = calls1 @ calls'"
    by (auto split: outcome.splits option.splits)
  from route_message_clean[OF Cons.prems(1) rm]
  have c1: "\<forall>u st. cs1 u = Some st \<longrightarrow>
             booking_data st ''proposed_time'' = None \<and> stage st \<noteq> Completed" and "calls1 = []"
    by simp_all
  with Cons.IH[OF c1 rest] calls show ?case by simp
qed

text \<open>
  Claim C5. After any sequence of \<^verbatim>\<open>route_message\<close> calls on an empty dictionary of
  conversations, the \<^verbatim>\<open>booking_data\<close> of every user has no key \<^verbatim>\<open>proposed_time\<close> (nor
  has a successful booking result, the only value ever assigned to it); so
  \<^verbatim>\<open>_extract_confirmed_time\<close> returns \<^verbatim>\<open>None\<close> for every message, no stage is
  \<^verbatim>\<open>completed\<close>, \<^verbatim>\<open>create_booking\<close> was never called, and a message classified as
  \<^verbatim>\<open>confirm_booking\<close> in the stage \<^verbatim>\<open>showing_availability\<close> or \<^verbatim>\<open>awaiting_confirmation\<close> is
  answered by the clarification reply and moves the stage to \<^verbatim>\<open>awaiting_confirmation\<close>.
\<close>

theorem no_proposed_time_so_no_booking_is_ever_completed:
  assumes "run bm Map.empty requests = Some (cs, outs, calls)" and "cs uid = Some st"
  shows "''proposed_time'' \<notin> dom (booking_data st)
       \<and> (\<forall>i t n v. ''proposed_time'' \<notin> dom (success_result i t n v))
       \<and> (\<forall>msg h. extract_confirmed_time msg (st\<lparr>history := h\<rparr>) = None)
       \<and> stage st \<noteq> Completed
       \<and> calls = []
       \<and> (\<forall>env msg.
            detect_intent env msg (st\<lparr>history := history st @ [UserTurn msg]\<rparr>) = ''confirm_booking''
            \<and> (stage st = ShowingAvailability \<or> stage st = AwaitingConfirmation) \<longrightarrow>
            route_message bm env cs uid msg =
              (cs(uid \<mapsto> st\<lparr>stage := AwaitingConfirmation,
                            history := last_n 10 (history st @ [UserTurn msg,
                                                  AssistantTurn ClarifyTimeResponse])\<rparr>),
               Return ClarifyTimeResponse, []))"
proof -
  have "\<forall>u st. (Map.empty :: conversations) u = Some st \<longrightarrow>
          booking_data st ''proposed_time'' = None \<and> stage st \<noteq> Completed"
    by simp
  from run_clean[OF this assms(1)] assms(2)
  have none: "booking_data st ''proposed_time'' = None" and st: "stage st \<noteq> Completed"
    and calls: "calls = []"
    by auto
  have confirm: "route_message bm env cs uid msg =
              (cs(uid \<mapsto> st\<lparr>stage := AwaitingConfirmation,
                            history := last_n 10 (history st @ [UserTurn msg,
                                                  AssistantTurn ClarifyTimeResponse])\<rparr>),
               Return ClarifyTimeResponse, [])"
    if di: "detect_intent env msg (st\<lparr>history := history st @ [UserTurn msg]\<rparr>) = ''confirm_booking''"
      and sg: "stage st = ShowingAvailability \<or> stage st = AwaitingConfirmation" for env msg
  proof -
    let ?s1 = "st\<lparr>history := history st @ [UserTurn msg]\<rparr>"
    have "handle_intent bm env uid ''confirm_booking'' msg ?s1 =
            (?s1\<lparr>stage := AwaitingConfirmation\<rparr>, Return ClarifyTimeResponse, [])"
      using none sg by (intro handle_intent_confirm_without_proposed_time) simp_all
    with di have hi: "handle_intent bm env uid
           (detect_intent env msg (st\<lparr>history := history st @ [UserTurn msg]\<rparr>))
           msg (st\<lparr>history := history st @ [UserTurn msg]\<rparr>)
         = (?s1\<lparr>stage := AwaitingConfirmation\<rparr>, Return ClarifyTimeResponse, [])"
      by simp
    have s0: "st = (case cs uid of None \<Rightarrow> initial_state | Some st \<Rightarrow> st)"
      using assms(2) by simp
    from route_message_result[of st cs uid, OF s0 hi] show ?thesis by simp
  qed
  from none have "''proposed_time'' \<notin> dom (booking_data st)" by (simp add: domIff)
  moreover have "\<forall>i t n v. ''proposed_time'' \<notin> dom (success_result i t n v)"
    by (simp add: success_result_def)
  moreover have "\<forall>msg h. extract_confirmed_time msg (st\<lparr>history := h\<rparr>) = None"
    using none by (simp add: extract_confirmed_time_absent)
  ultimately show ?thesis using st calls confirm by blast
qed


text \<open>Evaluation of the example inputs.\<close>

lemmas time_defs =
  timedelta_minutes_def timedelta_days_def date_of_def DAY_def HOUR_def MINUTE_def SECOND_def

lemma example_inquiry_slots:
  "booking_get_available_slots example_calendar example_manager (10 * HOUR + 30 * MINUTE)
     (DAY + 15 * HOUR) 3 =
   Return [DAY + 9 * HOUR, DAY + 10 * HOUR, DAY + 11 * HOUR, DAY + 12 * HOUR, DAY + 13 * HOUR]"
  by (simp add: booking_get_available_slots_def upt_conv_Cons Let_def example_manager_def
        calendar_get_available_slots_def example_calendar_def replace_hm_def
        slot_loop_positive time_defs)

lemma example_inquiry_run:
  "run example_manager Map.empty [(example_env, ''u1'', ''tomorrow at 3pm'')] =
     Some ([''u1'' \<mapsto> shown_state],
           [Return (AvailabilityResponse
              [DAY + 9 * HOUR, DAY + 10 * HOUR, DAY + 11 * HOUR, DAY + 12 * HOUR, DAY + 13 * HOUR])],
           [])"
proof -
  have env: "detect_intent example_env ''tomorrow at 3pm'' st = ''booking_inquiry''"
    "extract_date_time example_env ''tomorrow at 3pm'' = Some (DAY + 15 * HOUR)"
    "clock example_env = 10 * HOUR + 30 * MINUTE" "calendar example_env = example_calendar" for st
    by (simp_all add: detect_intent_def example_env_def)
  show ?thesis
    by (simp add: route_message_def handle_intent_def env example_inquiry_slots Let_def
          initial_state_def shown_state_def)
qed

theorem no_proposed_time_so_no_booking_is_ever_completed_witness:
  "run example_manager Map.empty [(example_env, ''u1'', ''tomorrow at 3pm'')] =
     Some ([''u1'' \<mapsto> shown_state],
           [Return (AvailabilityResponse
              [DAY + 9 * HOUR, DAY + 10 * HOUR, DAY + 11 * HOUR, DAY + 12 * HOUR, DAY + 13 * HOUR])],
           [])
   \<and> [''u1'' \<mapsto> shown_state] ''u1'' = Some shown_state
   \<and> ''proposed_time'' \<notin> dom (booking_data shown_state)
   \<and> extract_confirmed_time ''yes'' shown_state = None
   \<and> stage shown_state = ShowingAvailability
   \<and> snd (route_message example_manager example_env [''u1'' \<mapsto> shown_state] ''u1'' ''yes'')
       = (Return ClarifyTimeResponse, [])"
proof -
  have look: "[''u1'' \<mapsto> shown_state] ''u1'' = Some shown_state" by simp
  note inst = no_proposed_time_so_no_booking_is_ever_completed[OF example_inquiry_run look]
  have di: "detect_intent example_env ''yes''
              (shown_state\<lparr>history := history shown_state @ [UserTurn ''yes'']\<rparr>) = ''confirm_booking''"
    by (simp add: detect_intent_def example_env_def)
  have sg: "stage shown_state = ShowingAvailability" by (simp add: shown_state_def)
  from inst have "extract_confirmed_time ''yes'' (shown_state\<lparr>history := history shown_state\<rparr>) = None"
    by blast
  then have ex: "extract_confirmed_time ''yes'' shown_state = None" by simp
  from inst di sg
  have "route_message example_manager example_env [''u1'' \<mapsto> shown_state] ''u1'' ''yes'' =
          ([''u1'' \<mapsto> shown_state](''u1'' \<mapsto> shown_state\<lparr>stage := AwaitingConfirmation,
               history := last_n 10 (history shown_state @ [UserTurn ''yes'',
                                      AssistantTurn ClarifyTimeResponse])\<rparr>),
           Return ClarifyTimeResponse, [])"
    by blast
  then have rm: "snd (route_message example_manager example_env [''u1'' \<mapsto> shown_state] ''u1'' ''yes'')
       = (Return ClarifyTimeResponse, [])"
    by simp
  from inst have "''proposed_time'' \<notin> dom (booking_data shown_state)" by blast
  with example_inquiry_run look ex sg rm show ?thesis by blast
qed







lemma route_message_history:
  assumes "route_message bm env cs uid msg = (cs', out, calls)"
  shows "retained_history cs' uid =
           (case out of
              Return response \<Rightarrow>
                last_n 10 (retained_history cs uid @ [UserTurn msg, AssistantTurn response])
            | _ \<Rightarrow> retained_history cs uid @ [UserTurn msg])"
    and "u \<noteq> uid \<Longrightarrow> cs' u = cs u"
proof -
  define state0 where "state0 = (case cs uid of None \<Rightarrow> initial_state | Some st \<Rightarrow> st)"
  define state1 where "state1 = state0\<lparr>history := history state0 @ [UserTurn msg]\<rparr>"
  obtain state2 out2 calls2 where
    hi: "handle_intent bm env uid (detect_intent env msg state1) msg state1 = (state2, out2, calls2)"
    by (metis prod_cases3)
  from route_message_result[of state0 cs uid, OF state0_def hi[unfolded state1_def]] assms
  have cs': "cs' = cs(uid \<mapsto> (case out2 of
                           Return response \<Rightarrow>
                             state2\<lparr>history := last_n 10 (history state2 @ [AssistantTurn response])\<rparr>
                         | _ \<Rightarrow> state2))" and out: "out = out2"
    by simp_all
  have h0: "history state0 = retained_history cs uid"
    by (simp add: state0_def retained_history_def initial_state_def split: option.splits)
  from handle_intent_history[OF hi] have h2: "history state2 = retained_history cs uid @ [UserTurn msg]"
    by (simp add: state1_def h0)
  show "retained_history cs' uid =
           (case out of
              Return response \<Rightarrow>
                last_n 10 (retained_history cs uid @ [UserTurn msg, AssistantTurn response])
            | _ \<Rightarrow> retained_history cs uid @ [UserTurn msg])"
    by (simp add: cs' out retained_history_def h2 split: outcome.splits)
  show "u \<noteq> uid \<Longrightarrow> cs' u = cs u" by (simp add: cs')
qed

text \<open>
  The retained history \<open>H\<close> against the list \<open>T\<close> of all turns appended so far: either
  nothing was dropped yet, or \<open>H\<close> holds at least the last 10 turns of \<open>T\<close>. Appending
  turns, and cutting to the last 10, keep that relation.
\<close>

lemma tracked_step:
  assumes "H = T \<or> (10 \<le> length H \<and> (\<exists>zs. T = zs @ H))"
  shows "last_n 10 (H @ xs) = last_n 10 (T @ xs)"
    and "H @ xs = T @ xs \<or> (10 \<le> length (H @ xs) \<and> (\<exists>zs. T @ xs = zs @ H @ xs))"
    and "last_n 10 (H @ xs) = T @ xs
         \<or> (10 \<le> length (last_n 10 (H @ xs)) \<and> (\<exists>zs. T @ xs = zs @ last_n 10 (H @ xs)))"
proof -
  show a: "last_n 10 (H @ xs) = last_n 10 (T @ xs)"
    using assms last_n_append_long[of 10 "H @ xs"] by auto
  show "H @ xs = T @ xs \<or> (10 \<le> length (H @ xs) \<and> (\<exists>zs. T @ xs = zs @ H @ xs))"
    using assms by auto
  show "last_n 10 (H @ xs) = T @ xs
         \<or> (10 \<le> length (last_n 10 (H @ xs)) \<and> (\<exists>zs. T @ xs = zs @ last_n 10 (H @ xs)))"
  proof (cases "length (T @ xs) \<le> 10")
    case True
    then show ?thesis unfolding a by (simp add: last_n_short)
  next
    case False
    have "T @ xs = take (length (T @ xs) - 10) (T @ xs) @ last_n 10 (T @ xs)"
      by (simp only: last_n_def append_take_drop_id)
    then have "\<exists>zs. T @ xs = zs @ last_n 10 (T @ xs)" by (rule exI)
    moreover from False have "10 \<le> length (last_n 10 (T @ xs))" by (simp add: length_last_n)
    ultimately show ?thesis unfolding a by blast
  qed
qed


lemma route_message_defined:
  assumes "route_message bm env cs uid msg = (cs', out, calls)"
  shows "\<exists>st. cs' uid = Some st"
proof -
  define state0 where "state0 = (case cs uid of None \<Rightarrow> initial_state | Some st \<Rightarrow> st)"
  obtain state2 out2 calls2 where
    hi: "handle_intent bm env uid
           (detect_intent env msg (state0\<lparr>history := history state0 @ [UserTurn msg]\<rparr>))
           msg (state0\<lparr>history := history state0 @ [UserTurn msg]\<rparr>) = (state2, out2, calls2)"
    by (metis prod_cases3)
  from route_message_result[of state0 cs uid, OF state0_def hi] assms show ?thesis by auto
qed

lemma run_Cons_Some:
  assumes "run bm cs0 ((env, uid, msg) # requests) = Some (cs, outs, calls)"
  obtains cs1 out1 calls1 outs' calls' where
    "route_message bm env cs0 uid msg = (cs1, out1, calls1)" "out1 \<noteq> NoReturn"
    "run bm cs1 requests = Some (cs, outs', calls')" "outs = out1 # outs'" "calls = calls1 @ calls'"
proof -
  obtain cs1 out1 calls1 where rm: "route_message bm env cs0 uid msg = (cs1, out1, calls1)"
    by (metis prod_cases3)
  with assms have "out1 \<noteq> NoReturn" by auto
  moreover from assms rm obtain outs' calls' where
    "run bm cs1 requests = Some (cs, outs', calls')" "outs = out1 # outs'" "calls = calls1 @ calls'"
    by (auto split: outcome.splits option.splits)
  ultimately show ?thesis using rm that by blast
qed

lemma run_tracked:
  assumes "run bm cs0 requests = Some (cs, outs, calls)"
    and "retained_history cs0 uid = T0
         \<or> (10 \<le> length (retained_history cs0 uid) \<and> (\<exists>zs. T0 = zs @ retained_history cs0 uid))"
  shows "retained_history cs uid = T0 @ transcript uid requests outs
         \<or> (10 \<le> length (retained_history cs uid)
            \<and> (\<exists>zs. T0 @ transcript uid requests outs = zs @ retained_history cs uid))"
  using assms
proof (induction requests arbitrary: cs0 T0 outs calls)
  case Nil
  then show ?case by simp
next
  case (Cons q requests)
  obtain env u msg where q: "q = (env, u, msg)" by (metis prod_cases3)
  from Cons.prems(1)[unfolded q] obtain cs1 out1 calls1 outs' calls' where
    rm: "route_message bm env cs0 u msg = (cs1, out1, calls1)" and nr: "out1 \<noteq> NoReturn"
    and rest: "run bm cs1 requests = Some (cs, outs', calls')" and outs: "outs = out1 # outs'"
    by (rule run_Cons_Some)
  show ?case
  proof (cases "u = uid")
    case False
    then have "retained_history cs1 uid = retained_history cs0 uid"
      using route_message_history(2)[OF rm, of uid] by (simp add: retained_history_def)
    with Cons.prems(2) have "retained_history cs1 uid = T0
         \<or> (10 \<le> length (retained_history cs1 uid) \<and> (\<exists>zs. T0 = zs @ retained_history cs1 uid))"
      by simp
    from Cons.IH[OF rest this] False show ?thesis by (simp add: q outs)
  next
    case True
    show ?thesis
    proof (cases out1)
      case (Return response)
      let ?xs = "[UserTurn msg, AssistantTurn response]"
      have h1: "retained_history cs1 uid = last_n 10 (retained_history cs0 uid @ ?xs)"
        using route_message_history(1)[OF rm] True Return by simp
      have "retained_history cs1 uid = T0 @ ?xs
         \<or> (10 \<le> length (retained_history cs1 uid)
            \<and> (\<exists>zs. T0 @ ?xs = zs @ retained_history cs1 uid))"
        unfolding h1 by (rule tracked_step(3)[OF Cons.prems(2)])
      from Cons.IH[OF rest this] True Return show ?thesis by (simp add: q outs)
    next
      case (Raise e)
      let ?xs = "[UserTurn msg]"
      have h1: "retained_history cs1 uid = retained_history cs0 uid @ ?xs"
        using route_message_history(1)[OF rm] True Raise by simp
      have "retained_history cs1 uid = T0 @ ?xs
         \<or> (10 \<le> length (retained_history cs1 uid)
            \<and> (\<exists>zs. T0 @ ?xs = zs @ retained_history cs1 uid))"
        unfolding h1 using tracked_step(2)[OF Cons.prems(2), of ?xs] by simp
      from Cons.IH[OF rest this] True Raise show ?thesis by (simp add: q outs)
    next
      case NoReturn
      with nr show ?thesis by simp
    qed
  qed
qed

lemma run_append_Some:
  assumes "run bm cs0 (xs @ ys) = Some (cs, outs, calls)"
  shows "\<exists>cs1 outs1 calls1 outs2 calls2.
           run bm cs0 xs = Some (cs1, outs1, calls1) \<and> run bm cs1 ys = Some (cs, outs2, calls2)
         \<and> outs = outs1 @ outs2 \<and> calls = calls1 @ calls2 \<and> length outs1 = length xs"
  using assms
proof (induction xs arbitrary: cs0 outs calls)
  case Nil
  then show ?case by simp
next
  case (Cons q xs)
  obtain env u msg where q: "q = (env, u, msg)" by (metis prod_cases3)
  from Cons.prems[unfolded q append_Cons] obtain cs1 out1 calls1 outs' calls' where
    rm: "route_message bm env cs0 u msg = (cs1, out1, calls1)" and nr: "out1 \<noteq> NoReturn"
    and rest: "run bm cs1 (xs @ ys) = Some (cs, outs', calls')" and outs: "outs = out1 # outs'"
    and calls: "calls = calls1 @ calls'"
    by (rule run_Cons_Some)
  from Cons.IH[OF rest] obtain cs2 outs1 calls1' outs2 calls2 where
    a: "run bm cs1 xs = Some (cs2, outs1, calls1')" and b: "run bm cs2 ys = Some (cs, outs2, calls2)"
    and c: "outs' = outs1 @ outs2" "calls' = calls1' @ calls2" "length outs1 = length xs"
    by blast
  from rm nr a have "run bm cs0 (q # xs) = Some (cs2, out1 # outs1, calls1 @ calls1')"
    by (cases out1) (simp_all add: q)
  with b c outs calls show ?case by auto
qed

lemma run_other_users:
  assumes "run bm cs0 requests = Some (cs, outs, calls)"
    and "\<forall>q \<in> set requests. fst (snd q) \<noteq> uid"
  shows "cs uid = cs0 uid \<and> transcript uid requests outs = []"
  using assms
proof (induction requests arbitrary: cs0 outs calls)
  case Nil
  then show ?case by simp
next
  case (Cons q requests)
  obtain env u msg where q: "q = (env, u, msg)" by (metis prod_cases3)
  from Cons.prems(1)[unfolded q] obtain cs1 out1 calls1 outs' calls' where
    rm: "route_message bm env cs0 u msg = (cs1, out1, calls1)"
    and rest: "run bm cs1 requests = Some (cs, outs', calls')" and outs: "outs = out1 # outs'"
    by (rule run_Cons_Some)
  from Cons.prems(2) q have u: "u \<noteq> uid" by simp
  then have "cs1 uid = cs0 uid" using route_message_history(2)[OF rm, of uid] by simp
  moreover from Cons.IH[OF rest] Cons.prems(2)
  have "cs uid = cs1 uid \<and> transcript uid requests outs' = []" by simp
  ultimately show ?case using u by (simp add: q outs)
qed

lemma transcript_append:
  "length outs1 = length xs \<Longrightarrow>
     transcript uid (xs @ ys) (outs1 @ outs2) = transcript uid xs outs1 @ transcript uid ys outs2"
proof (induction xs arbitrary: outs1)
  case Nil
  then show ?case by simp
next
  case (Cons q xs)
  obtain env u msg where q: "q = (env, u, msg)" by (metis prod_cases3)
  from Cons.prems obtain o1 os where o: "outs1 = o1 # os" "length os = length xs"
    by (cases outs1) auto
  with Cons.IH[of os] show ?case by (simp add: q)
qed

lemma run_append_forward:
  assumes "run bm cs0 xs = Some (cs1, outs1, calls1)"
    and "run bm cs1 ys = Some (cs, outs2, calls2)"
  shows "run bm cs0 (xs @ ys) = Some (cs, outs1 @ outs2, calls1 @ calls2)"
  using assms
proof (induction xs arbitrary: cs0 outs1 calls1)
  case Nil
  then show ?case by simp
next
  case (Cons q xs)
  obtain env u msg where q: "q = (env, u, msg)" by (metis prod_cases3)
  from Cons.prems(1)[unfolded q] obtain cs' out1 callsq outs' calls' where
    rm: "route_message bm env cs0 u msg = (cs', out1, callsq)" and nr: "out1 \<noteq> NoReturn"
    and rest: "run bm cs' xs = Some (cs1, outs', calls')" and outs: "outs1 = out1 # outs'"
    and calls: "calls1 = callsq @ calls'"
    by (rule run_Cons_Some)
  from Cons.IH[OF rest Cons.prems(2)] rm nr show ?case
    by (cases out1) (simp_all add: q outs calls)
qed

lemma handle_intent_general_question:
  "handle_intent bm env uid ''general_question'' msg state =
     (state,
      Return (case chat env (last_n 4 (history state)) of
                Some text \<Rightarrow> Answer text
              | None \<Rightarrow> FallbackResponse), [])"
  by (simp add: handle_intent_def answer_general_question_def)






text \<open>
  The history after a call that returned. Take any sequence of \<^verbatim>\<open>route_message\<close> calls on
  an empty dictionary of conversations in which the last call for a user returned a reply.
  Then the history retained for that user has at most 10 turns and is the last 10 (or all,
  if fewer) of the turns appended for that user, in arrival order. A later message of that
  user classified as a general question is answered from the completion on the last 4
  turns of that history with the new inbound turn appended.
\<close>

lemma history_is_last_ten_turns_after_a_returning_call:
  assumes "run bm Map.empty (pre @ (env, uid, msg) # post) = Some (cs, outs, calls)"
    and "outs ! length pre = Return response"
    and "\<forall>q \<in> set post. fst (snd q) \<noteq> uid"
  shows "\<exists>st. cs uid = Some st
       \<and> length (history st) \<le> 10
       \<and> history st = last_n 10 (transcript uid (pre @ (env, uid, msg) # post) outs)
       \<and> (\<forall>env' msg'.
            detect_intent env' msg' (st\<lparr>history := history st @ [UserTurn msg']\<rparr>)
              = ''general_question'' \<longrightarrow>
            fst (snd (route_message bm env' cs uid msg')) =
              Return (case chat env' (last_n 4 (history st @ [UserTurn msg'])) of
                        Some text \<Rightarrow> Answer text
                      | None \<Rightarrow> FallbackResponse)
            \<and> length (last_n 4 (history st @ [UserTurn msg'])) \<le> 4)"
proof -
  from run_append_Some[OF assms(1)] obtain cs1 outs1 calls1 outs2 calls2 where
    pre: "run bm Map.empty pre = Some (cs1, outs1, calls1)"
    and mid: "run bm cs1 ((env, uid, msg) # post) = Some (cs, outs2, calls2)"
    and outs: "outs = outs1 @ outs2" and len: "length outs1 = length pre"
    by blast
  from mid obtain cs2 out1 callsq outs3 calls3 where
    rm: "route_message bm env cs1 uid msg = (cs2, out1, callsq)"
    and post: "run bm cs2 post = Some (cs, outs3, calls3)" and outs2: "outs2 = out1 # outs3"
    by (rule run_Cons_Some)
  from assms(2) outs outs2 len have out1: "out1 = Return response"
    by (simp add: nth_append)
  let ?xs = "[UserTurn msg, AssistantTurn response]"
  have "retained_history Map.empty uid = []
         \<or> (10 \<le> length (retained_history Map.empty uid)
            \<and> (\<exists>zs. [] = zs @ retained_history Map.empty uid))"
    by (simp add: retained_history_def)
  from run_tracked[OF pre this]
  have tr: "retained_history cs1 uid = transcript uid pre outs1
         \<or> (10 \<le> length (retained_history cs1 uid)
            \<and> (\<exists>zs. transcript uid pre outs1 = zs @ retained_history cs1 uid))"
    by simp
  have h2: "retained_history cs2 uid = last_n 10 (transcript uid pre outs1 @ ?xs)"
    using route_message_history(1)[OF rm] out1 tracked_step(1)[OF tr, of ?xs] by simp
  from run_other_users[OF post assms(3)]
  have same: "cs uid = cs2 uid" and none: "transcript uid post outs3 = []"
    by simp_all
  have tot: "transcript uid (pre @ (env, uid, msg) # post) outs = transcript uid pre outs1 @ ?xs"
    unfolding outs outs2 by (simp add: transcript_append[OF len] out1 none)
  from route_message_defined[OF rm] same obtain st where st: "cs uid = Some st" by auto
  with same have "cs2 uid = Some st" by simp
  then have hist: "history st = retained_history cs2 uid"
    by (simp add: retained_history_def)
  have a: "length (history st) \<le> 10" unfolding hist h2 by (simp add: length_last_n)
  have b: "history st = last_n 10 (transcript uid (pre @ (env, uid, msg) # post) outs)"
    unfolding hist h2 tot ..
  have c: "fst (snd (route_message bm env' cs uid msg')) =
              Return (case chat env' (last_n 4 (history st @ [UserTurn msg'])) of
                        Some text \<Rightarrow> Answer text
                      | None \<Rightarrow> FallbackResponse)
            \<and> length (last_n 4 (history st @ [UserTurn msg'])) \<le> 4"
    if di: "detect_intent env' msg' (st\<lparr>history := history st @ [UserTurn msg']\<rparr>)
              = ''general_question''" for env' msg'
  proof -
    have s0: "st = (case cs uid of None \<Rightarrow> initial_state | Some st \<Rightarrow> st)"
      using st by simp
    have hi: "handle_intent bm env' uid
           (detect_intent env' msg' (st\<lparr>history := history st @ [UserTurn msg']\<rparr>))
           msg' (st\<lparr>history := history st @ [UserTurn msg']\<rparr>)
         = (st\<lparr>history := history st @ [UserTurn msg']\<rparr>,
            Return (case chat env' (last_n 4 (history st @ [UserTurn msg'])) of
                        Some text \<Rightarrow> Answer text
                      | None \<Rightarrow> FallbackResponse), [])"
      unfolding di handle_intent_general_question by simp
    from route_message_result[of st cs uid bm env' msg', OF s0 hi]
    show ?thesis by (simp add: length_last_n)
  qed
  from st a b c show ?thesis by blast
qed

lemma greeting_call:
  "route_message example_manager example_env cs ''u1'' ''hi'' =
     (cs(''u1'' \<mapsto> (case cs ''u1'' of None \<Rightarrow> initial_state | Some st \<Rightarrow> st)
          \<lparr>stage := Greeted,
            history := last_n 10 (history (case cs ''u1'' of None \<Rightarrow> initial_state | Some st \<Rightarrow> st)
                                  @ [UserTurn ''hi'', AssistantTurn GreetingResponse])\<rparr>),
      Return GreetingResponse, [])"
proof -
  define state0 where "state0 = (case cs ''u1'' of None \<Rightarrow> initial_state | Some st \<Rightarrow> st)"
  have di: "detect_intent example_env ''hi'' st = ''greeting''" for st
    by (simp add: detect_intent_def example_env_def)
  have hi: "handle_intent example_manager example_env ''u1''
           (detect_intent example_env ''hi'' (state0\<lparr>history := history state0 @ [UserTurn ''hi'']\<rparr>))
           ''hi'' (state0\<lparr>history := history state0 @ [UserTurn ''hi'']\<rparr>)
         = (state0\<lparr>history := history state0 @ [UserTurn ''hi''], stage := Greeted\<rparr>,
            Return GreetingResponse, [])"
    unfolding di by (simp add: handle_intent_def)
  from route_message_result[of state0 cs "''u1''" example_manager example_env "''hi''", OF state0_def hi]
  show ?thesis unfolding state0_def by simp
qed

lemma five_greetings_run:
  "run example_manager Map.empty (replicate 5 (example_env, ''u1'', ''hi'')) =
     Some ([''u1'' \<mapsto> greeted_state], replicate 5 (Return GreetingResponse), [])"
  by (simp add: eval_nat_numeral greeting_call initial_state_def last_n_def greeted_state_def)


lemma outage_inquiry_slots:
  "booking_get_available_slots unreachable_calendar example_manager (10 * HOUR + 30 * MINUTE)
     (DAY + 15 * HOUR) 3 = Raise OtherError"
  by (simp add: booking_get_available_slots_def upt_conv_Cons Let_def example_manager_def
        calendar_get_available_slots_def unreachable_calendar_def example_calendar_def
        replace_hm_def time_defs)


lemma outage_call:
  "route_message example_manager outage_env cs ''u1'' ''tomorrow at 3pm'' =
     (cs(''u1'' \<mapsto> (case cs ''u1'' of None \<Rightarrow> initial_state | Some st \<Rightarrow> st)
          \<lparr>history := history (case cs ''u1'' of None \<Rightarrow> initial_state | Some st \<Rightarrow> st)
                        @ [UserTurn ''tomorrow at 3pm'']\<rparr>),
      Raise OtherError, [])"
proof -
  define state0 where "state0 = (case cs ''u1'' of None \<Rightarrow> initial_state | Some st \<Rightarrow> st)"
  have env: "detect_intent outage_env ''tomorrow at 3pm'' st = ''booking_inquiry''"
    "extract_date_time outage_env ''tomorrow at 3pm'' = Some (DAY + 15 * HOUR)"
    "clock outage_env = 10 * HOUR + 30 * MINUTE" "calendar outage_env = unreachable_calendar" for st
    by (simp_all add: detect_intent_def outage_env_def example_env_def)
  have hi: "handle_intent example_manager outage_env ''u1''
           (detect_intent outage_env ''tomorrow at 3pm''
              (state0\<lparr>history := history state0 @ [UserTurn ''tomorrow at 3pm'']\<rparr>))
           ''tomorrow at 3pm''
           (state0\<lparr>history := history state0 @ [UserTurn ''tomorrow at 3pm'']\<rparr>)
         = (state0\<lparr>history := history state0 @ [UserTurn ''tomorrow at 3pm'']\<rparr>,
            Raise OtherError, [])"
    unfolding env by (simp add: handle_intent_def env outage_inquiry_slots)
  from route_message_result[of state0 cs "''u1''" example_manager outage_env "''tomorrow at 3pm''",
      OF state0_def hi]
  show ?thesis unfolding state0_def by simp
qed

text \<open>
  Claim C7: after any number of \<^verbatim>\<open>route_message\<close> calls the retained history of a user has
  at most 10 turns, the most recent ones. The code cuts the history on the last lines of
  \<^verbatim>\<open>route_message\<close>, which a call that raises does not reach, while its inbound turn was
  appended on the first lines. After five greetings the history holds 10 turns; an inquiry
  whose availability query raises leaves 11 turns, and a second one leaves 12.
\<close>

theorem raising_calls_leave_more_than_ten_turns:
  "run example_manager Map.empty
     (replicate 5 (example_env, ''u1'', ''hi'') @ [(outage_env, ''u1'', ''tomorrow at 3pm'')]) =
     Some ([''u1'' \<mapsto> greeted_state\<lparr>history := history greeted_state @ [UserTurn ''tomorrow at 3pm'']\<rparr>],
           replicate 5 (Return GreetingResponse) @ [Raise OtherError], [])
   \<and> length (history (greeted_state\<lparr>history := history greeted_state @ [UserTurn ''tomorrow at 3pm'']\<rparr>))
       = 11
   \<and> run example_manager Map.empty
     (replicate 5 (example_env, ''u1'', ''hi'')
        @ [(outage_env, ''u1'', ''tomorrow at 3pm''), (outage_env, ''u1'', ''tomorrow at 3pm'')]) =
     Some ([''u1'' \<mapsto> greeted_state\<lparr>history := history greeted_state
                @ [UserTurn ''tomorrow at 3pm'', UserTurn ''tomorrow at 3pm'']\<rparr>],
           replicate 5 (Return GreetingResponse) @ [Raise OtherError, Raise OtherError], [])
   \<and> length (history (greeted_state\<lparr>history := history greeted_state
                @ [UserTurn ''tomorrow at 3pm'', UserTurn ''tomorrow at 3pm'']\<rparr>))
       = 12"
proof (intro conjI)
  have one: "run example_manager [''u1'' \<mapsto> greeted_state] [(outage_env, ''u1'', ''tomorrow at 3pm'')] =
          Some ([''u1'' \<mapsto> greeted_state\<lparr>history := history greeted_state @ [UserTurn ''tomorrow at 3pm'']\<rparr>],
                [Raise OtherError], [])"
    by (simp add: outage_call)
  from run_append_forward[OF five_greetings_run one]
  show "run example_manager Map.empty
     (replicate 5 (example_env, ''u1'', ''hi'') @ [(outage_env, ''u1'', ''tomorrow at 3pm'')]) =
     Some ([''u1'' \<mapsto> greeted_state\<lparr>history := history greeted_state @ [UserTurn ''tomorrow at 3pm'']\<rparr>],
           replicate 5 (Return GreetingResponse) @ [Raise OtherError], [])"
    by simp
  show "length (history (greeted_state\<lparr>history := history greeted_state @ [UserTurn ''tomorrow at 3pm'']\<rparr>))
       = 11"
    by (simp add: greeted_state_def eval_nat_numeral)
  have two: "run example_manager [''u1'' \<mapsto> greeted_state]
               [(outage_env, ''u1'', ''tomorrow at 3pm''), (outage_env, ''u1'', ''tomorrow at 3pm'')] =
          Some ([''u1'' \<mapsto> greeted_state\<lparr>history := history greeted_state
                   @ [UserTurn ''tomorrow at 3pm'', UserTurn ''tomorrow at 3pm'']\<rparr>],
                [Raise OtherError, Raise OtherError], [])"
    by (simp add: outage_call)
  from run_append_forward[OF five_greetings_run two]
  show "run example_manager Map.empty
     (replicate 5 (example_env, ''u1'', ''hi'')
        @ [(outage_env, ''u1'', ''tomorrow at 3pm''), (outage_env, ''u1'', ''tomorrow at 3pm'')]) =
     Some ([''u1'' \<mapsto> greeted_state\<lparr>history := history greeted_state
                @ [UserTurn ''tomorrow at 3pm'', UserTurn ''tomorrow at 3pm'']\<rparr>],
           replicate 5 (Return GreetingResponse) @ [Raise OtherError, Raise OtherError], [])"
    by simp
  show "length (history (greeted_state\<lparr>history := history greeted_state
                @ [UserTurn ''tomorrow at 3pm'', UserTurn ''tomorrow at 3pm'']\<rparr>))
       = 12"
    by (simp add: greeted_state_def eval_nat_numeral)
qed

text \<open>
  The confirmation words are looked up in the lower-cased text, so the Kelvin sign counts
  as the letter \<^verbatim>\<open>k\<close>: a text that ends in \<^verbatim>\<open>BOO\<close> and the Kelvin sign holds \<^verbatim>\<open>book\<close>.
\<close>

lemma lower_kelvin_sign:
  "lower [CHR ''B'', CHR ''O'', CHR ''O'', CHR 0xE2, CHR 0x84, CHR 0xAA] = ''book''"
  by code_simp

lemma confirmation_word_with_kelvin_sign:
  "extract_confirmed_time [CHR ''B'', CHR ''O'', CHR ''O'', CHR 0xE2, CHR 0x84, CHR 0xAA] state =
     booking_data state ''proposed_time''"
  unfolding extract_confirmed_time_def lower_kelvin_sign by (simp add: Let_def)


end
